theory Spec2Isabelle
  imports Main "HOL-Library.Word"
begin

unbundle bit_operations_syntax

section \<open>Go values: errors, panics, nil\<close>

text \<open>
  A Go \<^verbatim>\<open>error\<close> value is an opaque message. A function that returns
  \<^verbatim>\<open>(*T, error)\<close> is modelled by a pair of options: \<open>None\<close> in the first
  component is the nil pointer, \<open>None\<close> in the second the nil error. A run-time panic
  ends the call without a result: \<open>Panic\<close>.
\<close>

datatype error = Error string

datatype panic = NilPointerDereference | AssignmentToEntryInNilMap

datatype 'a outcome = Panic panic | Return 'a

section \<open>The collaborators of \<^verbatim>\<open>pkg/config/config.go\<close>\<close>

text \<open>
  \<^verbatim>\<open>os.FileInfo\<close> as returned by \<^verbatim>\<open>ioutil.ReadDir\<close>. The code reads
  \<^verbatim>\<open>Name()\<close> and \<^verbatim>\<open>IsDir()\<close> only; size and modification time are kept so
  that listings may differ in them.
\<close>

record FileInfo =
  FileInfo_Name :: string
  Size :: int
  ModTime :: int
  IsDir :: bool

text \<open>
  The file system and path library the code calls: \<^verbatim>\<open>ioutil.ReadDir\<close>,
  \<^verbatim>\<open>ioutil.ReadFile\<close> and \<^verbatim>\<open>filepath.Join\<close>. Go strings and byte slices are
  both byte sequences, so \<^verbatim>\<open>string(bytes)\<close> and \<^verbatim>\<open>[]byte(s)\<close> are the identity
  on \<open>string\<close>.
\<close>

record os =
  ReadDir :: "string \<Rightarrow> error + FileInfo list"
  ReadFile :: "string \<Rightarrow> error + string"
  filepath_Join :: "string \<Rightarrow> string \<Rightarrow> string"

text \<open>
  \<^verbatim>\<open>util.NewHash32()\<close> returns a \<^verbatim>\<open>hash.Hash32\<close>; package \<^verbatim>\<open>util\<close> is not
  among the sources, so the hasher is a parameter: a fresh state, \<^verbatim>\<open>Write\<close> and
  \<^verbatim>\<open>Sum32\<close>, the latter a 32-bit word.
\<close>

record 'h Hash32 =
  NewHash32 :: 'h
  Write :: "'h \<Rightarrow> string \<Rightarrow> 'h"
  Sum32 :: "'h \<Rightarrow> 32 word"

text \<open>\<^verbatim>\<open>apiv1.ConfigMap\<close>: the fields the code sets.\<close>

record ConfigMap =
  ConfigMap_Name :: string
  Namespace :: string
  Data :: "string \<rightharpoonup> string"

text \<open>
  \<^verbatim>\<open>kubeClient.CoreV1().ConfigMaps(namespace).Create(configMap)\<close>: takes a pointer and
  returns \<^verbatim>\<open>(*ConfigMap, error)\<close>.
\<close>

record KubeClient =
  Create :: "string \<Rightarrow> ConfigMap option \<Rightarrow> ConfigMap option \<times> error option"

text \<open>
  \<^verbatim>\<open>v1alpha1.SparkApplication\<close>: \<^verbatim>\<open>app.UID\<close>, \<^verbatim>\<open>app.Spec.SparkConf\<close> (a Go map,
  \<open>None\<close> when nil), \<^verbatim>\<open>app.Spec.SparkConfigMap\<close> and \<^verbatim>\<open>app.Spec.HadoopConfigMap\<close>
  (both \<^verbatim>\<open>*string\<close>).
\<close>

record SparkApplication =
  UID :: string
  SparkConf :: "(string \<rightharpoonup> string) option"
  SparkConfigMap :: "string option"
  HadoopConfigMap :: "string option"

text \<open>
  The Kubernetes pod types. \<^verbatim>\<open>ConfigMapVolumeSource\<close> has the inlined
  \<^verbatim>\<open>LocalObjectReference.Name\<close>, \<^verbatim>\<open>Items\<close> (key and path), \<^verbatim>\<open>DefaultMode\<close>
  (\<^verbatim>\<open>*int32\<close>) and \<^verbatim>\<open>Optional\<close> (\<^verbatim>\<open>*bool\<close>); it has no read-only field. Of
  \<^verbatim>\<open>VolumeSource\<close> only the \<^verbatim>\<open>ConfigMap\<close> pointer is kept: the code leaves every
  other source nil.
\<close>

record ConfigMapVolumeSource =
  LocalObjectReference_Name :: string
  Items :: "(string \<times> string) list"
  DefaultMode :: "32 word option"
  Optional :: "bool option"

record VolumeSource =
  ConfigMap :: "ConfigMapVolumeSource option"

record Volume =
  Volume_Name :: string
  Volume_VolumeSource :: VolumeSource

record VolumeMount =
  VolumeMount_Name :: string
  ReadOnly :: bool
  MountPath :: string
  SubPath :: string

record EnvVar =
  EnvVar_Name :: string
  Value :: string

record Pod =
  Volumes :: "Volume list"

record Container =
  VolumeMounts :: "VolumeMount list"
  Env :: "EnvVar list"

section \<open>Constants\<close>

definition DefaultSparkConfDir :: string where
  "DefaultSparkConfDir = ''/etc/spark/conf''"

definition SparkConfigMapNamePrefix :: string where
  "SparkConfigMapNamePrefix = ''spark-config-map''"

definition SparkConfigMapVolumeName :: string where
  "SparkConfigMapVolumeName = ''spark-config-map-volume''"

definition DefaultHadoopConfDir :: string where
  "DefaultHadoopConfDir = ''/etc/hadoop/conf''"

definition HadoopConfigMapNamePrefix :: string where
  "HadoopConfigMapNamePrefix = ''hadoop-config-map''"

definition HadoopConfigMapVolumeName :: string where
  "HadoopConfigMapVolumeName = ''hadoop-config-map-volume''"

definition LabelAnnotationPrefix :: string where
  "LabelAnnotationPrefix = ''apache-spark-on-k8s/''"

definition SparkConfigMapAnnotation :: string where
  "SparkConfigMapAnnotation = LabelAnnotationPrefix @ ''spark-config-map''"

definition HadoopConfigMapAnnotation :: string where
  "HadoopConfigMapAnnotation = LabelAnnotationPrefix @ ''hadoop-config-map''"

definition SparkDriverAnnotationsKey :: string where
  "SparkDriverAnnotationsKey = ''spark.kubernetes.driver.annotations''"

definition SparkExecutorAnnotationsKey :: string where
  "SparkExecutorAnnotationsKey = ''spark.kubernetes.executor.annotations''"

definition SparkConfDirEnvVar :: string where
  "SparkConfDirEnvVar = ''SPARK_CONF_DIR''"

definition HadoopConfDirEnvVar :: string where
  "HadoopConfDirEnvVar = ''HADOOP_CONF_DIR''"

section \<open>The annotation registry\<close>

text \<open>
  Go map operations on a possibly nil map: reading a nil map finds nothing, assigning
  into it panics.
\<close>

definition map_index :: "('k \<rightharpoonup> 'v) option \<Rightarrow> 'k \<Rightarrow> 'v option" where
  "map_index m k = (case m of None \<Rightarrow> None | Some f \<Rightarrow> f k)"

definition map_assign :: "('k \<rightharpoonup> 'v) option \<Rightarrow> 'k \<Rightarrow> 'v \<Rightarrow> ('k \<rightharpoonup> 'v) option outcome" where
  "map_assign m k v =
     (case m of None \<Rightarrow> Panic AssignmentToEntryInNilMap | Some f \<Rightarrow> Return (Some (f(k \<mapsto> v))))"

text \<open>
  \<^verbatim>\<open>AddConfigMapAnnotation\<close> mutates \<^verbatim>\<open>app\<close> through its pointer; the model returns
  the updated application. \<^verbatim>\<open>fmt.Sprintf\<close> with \<^verbatim>\<open>%s\<close> verbs concatenates.
\<close>

definition AddConfigMapAnnotation ::
  "SparkApplication \<Rightarrow> string \<Rightarrow> string \<Rightarrow> string \<Rightarrow> SparkApplication outcome" where
  "AddConfigMapAnnotation app annotationConfKey key val =
     (case map_index (SparkConf app) annotationConfKey of
        Some annotations \<Rightarrow>
          (case map_assign (SparkConf app) annotationConfKey (annotations @ '','' @ key @ ''='' @ val) of
             Panic p \<Rightarrow> Panic p
           | Return conf \<Rightarrow> Return (app\<lparr>SparkConf := conf\<rparr>))
      | None \<Rightarrow>
          (case map_assign (SparkConf app) annotationConfKey (key @ ''='' @ val) of
             Panic p \<Rightarrow> Panic p
           | Return conf \<Rightarrow> Return (app\<lparr>SparkConf := conf\<rparr>)))"

text \<open>A sequence of calls on the same annotation key, each with its subkey and value.\<close>

fun AddConfigMapAnnotations ::
  "SparkApplication \<Rightarrow> string \<Rightarrow> (string \<times> string) list \<Rightarrow> SparkApplication outcome" where
  "AddConfigMapAnnotations app annotationConfKey [] = Return app"
| "AddConfigMapAnnotations app annotationConfKey ((key, val) # rest) =
     (case AddConfigMapAnnotation app annotationConfKey key val of
        Panic p \<Rightarrow> Panic p
      | Return app' \<Rightarrow> AddConfigMapAnnotations app' annotationConfKey rest)"

section \<open>The mount wirer\<close>

definition addConfigMapVolumeToPod :: "string \<Rightarrow> string \<Rightarrow> Pod \<Rightarrow> string \<times> Pod" where
  "addConfigMapVolumeToPod configMapName configMapVolumeName pod =
     (let volume = \<lparr>Volume_Name = configMapVolumeName,
                     Volume_VolumeSource = \<lparr>ConfigMap = Some
                       \<lparr>LocalObjectReference_Name = configMapName,
                        Items = [], DefaultMode = None, Optional = None\<rparr>\<rparr>\<rparr>
      in (Volume_Name volume, pod\<lparr>Volumes := Volumes pod @ [volume]\<rparr>))"

definition AddSparkConfigMapVolumeToPod :: "string \<Rightarrow> Pod \<Rightarrow> string \<times> Pod" where
  "AddSparkConfigMapVolumeToPod configMapName pod =
     addConfigMapVolumeToPod configMapName SparkConfigMapVolumeName pod"

definition AddHadoopConfigMapVolumeToPod :: "string \<Rightarrow> Pod \<Rightarrow> string \<times> Pod" where
  "AddHadoopConfigMapVolumeToPod configMapName pod =
     addConfigMapVolumeToPod configMapName HadoopConfigMapVolumeName pod"

definition mountConfigMapToContainer ::
  "string \<Rightarrow> string \<Rightarrow> string \<Rightarrow> Container \<Rightarrow> Container" where
  "mountConfigMapToContainer volumeName mountPath env container =
     (let volumeMount = \<lparr>VolumeMount_Name = volumeName, ReadOnly = True,
                          MountPath = mountPath, SubPath = []\<rparr>;
          container = container\<lparr>VolumeMounts := VolumeMounts container @ [volumeMount]\<rparr>;
          appCredentialEnvVar = \<lparr>EnvVar_Name = env, Value = mountPath\<rparr>
      in container\<lparr>Env := Env container @ [appCredentialEnvVar]\<rparr>)"

definition MountSparkConfigMapToContainer :: "string \<Rightarrow> string \<Rightarrow> Container \<Rightarrow> Container" where
  "MountSparkConfigMapToContainer volumeName mountPath container =
     mountConfigMapToContainer volumeName mountPath SparkConfDirEnvVar container"

definition MountHadoopConfigMapToContainer :: "string \<Rightarrow> string \<Rightarrow> Container \<Rightarrow> Container" where
  "MountHadoopConfigMapToContainer volumeName mountPath container =
     mountConfigMapToContainer volumeName mountPath HadoopConfDirEnvVar container"

section \<open>The bundle builder\<close>

text \<open>The verb \<^verbatim>\<open>%d\<close> of \<^verbatim>\<open>fmt.Sprintf\<close> on a \<^verbatim>\<open>uint32\<close>: decimal digits.\<close>

fun decimal :: "nat \<Rightarrow> string" where
  "decimal n =
     (if n < 10 then [''0123456789'' ! n]
      else decimal (n div 10) @ [''0123456789'' ! (n mod 10)])"

declare decimal.simps [simp del]

text \<open>
  The loop of \<^verbatim>\<open>buildConfigMapFromConfigDir\<close> over the listing, with the hasher and
  the data map as its state. A failed read leaves the function at once.
\<close>

fun readFiles ::
  "os \<Rightarrow> 'h Hash32 \<Rightarrow> string \<Rightarrow> FileInfo list \<Rightarrow> 'h \<Rightarrow> (string \<rightharpoonup> string)
     \<Rightarrow> error + 'h \<times> (string \<rightharpoonup> string)" where
  "readFiles fs H dir [] hasher data = Inr (hasher, data)"
| "readFiles fs H dir (file # files) hasher data =
     (if IsDir file then readFiles fs H dir files hasher data
      else (case ReadFile fs (filepath_Join fs dir (FileInfo_Name file)) of
              Inl err \<Rightarrow> Inl err
            | Inr bytes \<Rightarrow>
                readFiles fs H dir files (Write H hasher bytes)
                  (data(FileInfo_Name file \<mapsto> bytes))))"

definition buildConfigMapFromConfigDir ::
  "os \<Rightarrow> 'h Hash32 \<Rightarrow> string \<Rightarrow> string \<Rightarrow> string \<Rightarrow> string \<Rightarrow> ConfigMap option \<times> error option" where
  "buildConfigMapFromConfigDir fs H dir namePrefix namespace appUID =
     (case ReadDir fs dir of
        Inl err \<Rightarrow> (None, Some err)
      | Inr files \<Rightarrow>
          (case readFiles fs H dir files (NewHash32 H) Map.empty of
             Inl err \<Rightarrow> (None, Some err)
           | Inr (hasher, data) \<Rightarrow>
               (let hasher = Write H hasher dir;
                    hasher = Write H hasher namespace;
                    hasher = Write H hasher appUID
                in (Some \<lparr>ConfigMap_Name = namePrefix @ ''-'' @ decimal (unat (Sum32 H hasher)),
                          Namespace = namespace, Data = data\<rparr>, None))))"

section \<open>The provisioner and the pipeline\<close>

text \<open>\<^verbatim>\<open>configMap.Name\<close> through a pointer that may be nil.\<close>

definition deref_Name :: "ConfigMap option \<Rightarrow> string outcome" where
  "deref_Name configMap =
     (case configMap of None \<Rightarrow> Panic NilPointerDereference | Some cm \<Rightarrow> Return (ConfigMap_Name cm))"

definition createConfigMap ::
  "os \<Rightarrow> 'h Hash32 \<Rightarrow> KubeClient \<Rightarrow> string \<Rightarrow> string \<Rightarrow> string \<Rightarrow> SparkApplication
     \<Rightarrow> (string \<times> error option) outcome" where
  "createConfigMap fs H kubeClient dir namespace namePrefix app =
     (case buildConfigMapFromConfigDir fs H dir namePrefix namespace (UID app) of
        (configMap, Some err) \<Rightarrow>
          (case deref_Name configMap of Panic p \<Rightarrow> Panic p | Return name \<Rightarrow> Return (name, Some err))
      | (configMap, None) \<Rightarrow>
          (case Create kubeClient namespace configMap of
             (configMap, Some err) \<Rightarrow>
               (case deref_Name configMap of Panic p \<Rightarrow> Panic p | Return name \<Rightarrow> Return (name, Some err))
           | (configMap, None) \<Rightarrow>
               (case deref_Name configMap of Panic p \<Rightarrow> Panic p | Return name \<Rightarrow> Return (name, None))))"

text \<open>
  \<^verbatim>\<open>CreateSparkConfigMap\<close> and \<^verbatim>\<open>CreateHadoopConfigMap\<close> return the error and, as
  they mutate \<^verbatim>\<open>app\<close> through its pointer, the application as they leave it.
\<close>

definition CreateSparkConfigMap ::
  "os \<Rightarrow> 'h Hash32 \<Rightarrow> KubeClient \<Rightarrow> string \<Rightarrow> string \<Rightarrow> SparkApplication
     \<Rightarrow> (error option \<times> SparkApplication) outcome" where
  "CreateSparkConfigMap fs H kubeClient sparkConfDir namespace app =
     (case createConfigMap fs H kubeClient sparkConfDir namespace SparkConfigMapNamePrefix app of
        Panic p \<Rightarrow> Panic p
      | Return (name, Some err) \<Rightarrow> Return (Some err, app)
      | Return (name, None) \<Rightarrow>
          (case AddConfigMapAnnotation app SparkDriverAnnotationsKey SparkConfigMapAnnotation name of
             Panic p \<Rightarrow> Panic p
           | Return app1 \<Rightarrow>
               (case AddConfigMapAnnotation app1 SparkExecutorAnnotationsKey SparkConfigMapAnnotation name of
                  Panic p \<Rightarrow> Panic p
                | Return app2 \<Rightarrow> Return (None, app2\<lparr>SparkConfigMap := Some name\<rparr>))))"

definition CreateHadoopConfigMap ::
  "os \<Rightarrow> 'h Hash32 \<Rightarrow> KubeClient \<Rightarrow> string \<Rightarrow> string \<Rightarrow> SparkApplication
     \<Rightarrow> (error option \<times> SparkApplication) outcome" where
  "CreateHadoopConfigMap fs H kubeClient hadoopConfDir namespace app =
     (case createConfigMap fs H kubeClient hadoopConfDir namespace HadoopConfigMapNamePrefix app of
        Panic p \<Rightarrow> Panic p
      | Return (name, Some err) \<Rightarrow> Return (Some err, app)
      | Return (name, None) \<Rightarrow>
          (case AddConfigMapAnnotation app SparkDriverAnnotationsKey HadoopConfigMapAnnotation name of
             Panic p \<Rightarrow> Panic p
           | Return app1 \<Rightarrow>
               (case AddConfigMapAnnotation app1 SparkExecutorAnnotationsKey HadoopConfigMapAnnotation name of
                  Panic p \<Rightarrow> Panic p
                | Return app2 \<Rightarrow> Return (None, app2\<lparr>HadoopConfigMap := Some name\<rparr>))))"

section \<open>Notions used to state the properties\<close>

text \<open>
  What a call of \<^verbatim>\<open>buildConfigMapFromConfigDir\<close> can observe of a directory: the
  listing's names and directory flags, in order, and for every entry that is not a
  directory the result of reading it.
\<close>

definition entries ::
  "os \<Rightarrow> string \<Rightarrow> FileInfo list \<Rightarrow> (string \<times> bool \<times> (error + string) option) list" where
  "entries fs dir files =
     map (\<lambda>f. (FileInfo_Name f, IsDir f,
                if IsDir f then None
                else Some (ReadFile fs (filepath_Join fs dir (FileInfo_Name f))))) files"


text \<open>The listing of \<open>dir\<close> without its subdirectory entries, everything else as it is.\<close>

definition without_subdirectories :: "os \<Rightarrow> string \<Rightarrow> os" where
  "without_subdirectories fs dir =
     fs\<lparr>ReadDir := (\<lambda>d. if d = dir
                         then (case ReadDir fs d of
                                 Inl err \<Rightarrow> Inl err
                               | Inr files \<Rightarrow> Inr (filter (\<lambda>f. \<not> IsDir f) files))
                         else ReadDir fs d)\<rparr>"

text \<open>
  The value of an annotation key is a list of entries joined by commas; its reader
  splits it at every comma.
\<close>

fun comma_join :: "string list \<Rightarrow> string" where
  "comma_join [] = []"
| "comma_join [e] = e"
| "comma_join (e # e' # es) = e @ '','' @ comma_join (e' # es)"

fun split_commas :: "string \<Rightarrow> string list" where
  "split_commas [] = [] # []"
| "split_commas (c # cs) =
     (if c = CHR '','' then [] # split_commas cs
      else (case split_commas cs of [] \<Rightarrow> [c] # [] | e # es \<Rightarrow> (c # e) # es))"

definition annotation_entry :: "string \<times> string \<Rightarrow> string" where
  "annotation_entry kv = fst kv @ ''='' @ snd kv"

text \<open>
  A \<^verbatim>\<open>ConfigMapVolumeSource\<close> has no read-only flag. The one field of it that can
  take write access away is \<^verbatim>\<open>DefaultMode\<close>, the permission bits of the projected
  files: a volume counts as marked read-only when that field is set and has no write
  bit (octal 222).
\<close>

definition Volume_marked_read_only :: "Volume \<Rightarrow> bool" where
  "Volume_marked_read_only v =
     (case ConfigMap (Volume_VolumeSource v) of
        None \<Rightarrow> False
      | Some src \<Rightarrow> (case DefaultMode src of None \<Rightarrow> False | Some mode \<Rightarrow> mode AND 146 = 0))"

section \<open>Sample inputs\<close>

text \<open>
  A hasher to run the model on: FNV-1 on 32 bits, as \<^verbatim>\<open>hash/fnv\<close> of the Go library
  computes it. The theorems hold for every hasher.
\<close>

definition fnv32 :: "32 word Hash32" where
  "fnv32 = \<lparr>NewHash32 = 2166136261,
            Write = foldl (\<lambda>h b. (h * 16777619) XOR of_nat (of_char b)),
            Sum32 = (\<lambda>h. h)\<rparr>"

text \<open>
  A file system with the directory of the end-to-end scenario (two files and a
  subdirectory), an empty directory, and a directory with an unreadable file.
\<close>

definition sample_listing :: "FileInfo list" where
  "sample_listing =
     [\<lparr>FileInfo_Name = ''log4j.properties'', Size = 3, ModTime = 100, IsDir = False\<rparr>,
      \<lparr>FileInfo_Name = ''spark-defaults.conf'', Size = 3, ModTime = 200, IsDir = False\<rparr>,
      \<lparr>FileInfo_Name = ''templates'', Size = 4096, ModTime = 300, IsDir = True\<rparr>]"

definition sample_os :: os where
  "sample_os =
     \<lparr>ReadDir = (\<lambda>dir.
        if dir = ''/etc/spark/conf'' then Inr sample_listing
        else if dir = ''/empty'' then Inr []
        else if dir = ''/locked'' then
          Inr [\<lparr>FileInfo_Name = ''secret'', Size = 9, ModTime = 400, IsDir = False\<rparr>]
        else Inl (Error ''no such file or directory'')),
      ReadFile = (\<lambda>path.
        if path = ''/etc/spark/conf/log4j.properties'' then Inr ''b=2''
        else if path = ''/etc/spark/conf/spark-defaults.conf'' then Inr ''a=1''
        else Inl (Error ''permission denied'')),
      filepath_Join = (\<lambda>dir name. dir @ ''/'' @ name)\<rparr>"

text \<open>The bundle of the end-to-end scenario, under the sample hasher.\<close>

definition sample_bundle :: ConfigMap where
  "sample_bundle =
     \<lparr>ConfigMap_Name = ''spark-config-map-2052736648'', Namespace = ''ns1'',
      Data = [''log4j.properties'' \<mapsto> ''b=2'', ''spark-defaults.conf'' \<mapsto> ''a=1'']\<rparr>"


text \<open>
  Two object stores: one that accepts the object and returns it, one that rejects
  every create and, as the typed client does, returns an empty object with the error.
\<close>

definition accepting_client :: KubeClient where
  "accepting_client = \<lparr>Create = (\<lambda>namespace configMap. (configMap, None))\<rparr>"

definition rejecting_client :: KubeClient where
  "rejecting_client =
     \<lparr>Create = (\<lambda>namespace configMap.
        (Some \<lparr>ConfigMap_Name = [], Namespace = [], Data = Map.empty\<rparr>,
         Some (Error ''already exists'')))\<rparr>"

definition sample_app :: SparkApplication where
  "sample_app = \<lparr>UID = ''uid-123'', SparkConf = Some Map.empty,
                 SparkConfigMap = None, HadoopConfigMap = None\<rparr>"

text \<open>The zero value of the application type: its \<^verbatim>\<open>SparkConf\<close> map is nil.\<close>

definition zero_app :: SparkApplication where
  "zero_app = \<lparr>UID = [], SparkConf = None, SparkConfigMap = None, HadoopConfigMap = None\<rparr>"

section \<open>Wiring a pod and a container\<close>

text \<open>
  C7. One call of \<^verbatim>\<open>addConfigMapVolumeToPod\<close> followed by one call of
  \<^verbatim>\<open>mountConfigMapToContainer\<close> with the returned volume name: the pod has exactly one
  volume more, the container exactly one mount more, which is read-only, at
  \<open>mountPath\<close> and bound to the volume name, and exactly one environment variable
  more, whose value is \<open>mountPath\<close>. The entries that were there stay in place.
\<close>

theorem wiring_cardinality:
  "length (Volumes (snd (addConfigMapVolumeToPod configMapName volumeName pod)))
     = length (Volumes pod) + 1
   \<and> fst (addConfigMapVolumeToPod configMapName volumeName pod) = volumeName
   \<and> length (VolumeMounts (mountConfigMapToContainer
        (fst (addConfigMapVolumeToPod configMapName volumeName pod)) mountPath env container))
     = length (VolumeMounts container) + 1
   \<and> VolumeMounts (mountConfigMapToContainer
        (fst (addConfigMapVolumeToPod configMapName volumeName pod)) mountPath env container)
     = VolumeMounts container
       @ [\<lparr>VolumeMount_Name = volumeName, ReadOnly = True, MountPath = mountPath, SubPath = []\<rparr>]
   \<and> length (Env (mountConfigMapToContainer
        (fst (addConfigMapVolumeToPod configMapName volumeName pod)) mountPath env container))
     = length (Env container) + 1
   \<and> Env (mountConfigMapToContainer
        (fst (addConfigMapVolumeToPod configMapName volumeName pod)) mountPath env container)
     = Env container @ [\<lparr>EnvVar_Name = env, Value = mountPath\<rparr>]
   \<and> take (length (Volumes pod)) (Volumes (snd (addConfigMapVolumeToPod configMapName volumeName pod)))
     = Volumes pod"
  by (simp add: addConfigMapVolumeToPod_def mountConfigMapToContainer_def Let_def)


text \<open>
  The exported wrappers fix the volume names and the environment variables:
  \<^verbatim>\<open>SPARK_CONF_DIR\<close> and \<^verbatim>\<open>HADOOP_CONF_DIR\<close> receive the mount path.
\<close>

lemma wiring_wrappers:
  "fst (AddSparkConfigMapVolumeToPod configMapName pod) = ''spark-config-map-volume''
   \<and> fst (AddHadoopConfigMapVolumeToPod configMapName pod) = ''hadoop-config-map-volume''
   \<and> Env (MountSparkConfigMapToContainer volumeName mountPath container)
       = Env container @ [\<lparr>EnvVar_Name = ''SPARK_CONF_DIR'', Value = mountPath\<rparr>]
   \<and> Env (MountHadoopConfigMapToContainer volumeName mountPath container)
       = Env container @ [\<lparr>EnvVar_Name = ''HADOOP_CONF_DIR'', Value = mountPath\<rparr>]"
  by (simp add: AddSparkConfigMapVolumeToPod_def AddHadoopConfigMapVolumeToPod_def
      MountSparkConfigMapToContainer_def MountHadoopConfigMapToContainer_def
      addConfigMapVolumeToPod_def mountConfigMapToContainer_def
      SparkConfigMapVolumeName_def HadoopConfigMapVolumeName_def
      SparkConfDirEnvVar_def HadoopConfDirEnvVar_def)

section \<open>The loop over the directory listing\<close>

text \<open>
  When every file of the listing that is not a directory can be read, the loop feeds the
  contents to the hasher in listing order and stores each under its file name; a later
  entry of the same name overwrites an earlier one.
\<close>

lemma readFiles_reads_ok:
  "map (\<lambda>f. ReadFile fs (filepath_Join fs dir (FileInfo_Name f))) (filter (\<lambda>f. \<not> IsDir f) files)
     = map Inr contents \<Longrightarrow>
   readFiles fs H dir files hasher data
     = Inr (foldl (Write H) hasher contents,
            data ++ map_of (rev (zip (map FileInfo_Name (filter (\<lambda>f. \<not> IsDir f) files)) contents)))"
proof (induction files arbitrary: hasher data contents)
  case Nil
  then show ?case by simp
next
  case (Cons fi files)
  show ?case
  proof (cases "IsDir fi")
    case True
    with Cons show ?thesis by simp
  next
    case False
    with Cons.prems obtain c cs where c: "contents = c # cs"
      "ReadFile fs (filepath_Join fs dir (FileInfo_Name fi)) = Inr c"
      "map (\<lambda>f. ReadFile fs (filepath_Join fs dir (FileInfo_Name f))) (filter (\<lambda>f. \<not> IsDir f) files) = map Inr cs"
      by (cases contents) auto
    have eq: "data(FileInfo_Name fi \<mapsto> c) ++ map_of (rev zs)
        = data ++ map_of (rev ((FileInfo_Name fi, c) # zs))" for zs
      by (rule ext) (simp add: map_add_def split: option.splits)
    have "readFiles fs H dir (fi # files) hasher data
        = readFiles fs H dir files (Write H hasher c) (data(FileInfo_Name fi \<mapsto> c))"
      using False c(2) by simp
    also have "\<dots> = Inr (foldl (Write H) (Write H hasher c) cs,
        data(FileInfo_Name fi \<mapsto> c)
          ++ map_of (rev (zip (map FileInfo_Name (filter (\<lambda>f. \<not> IsDir f) files)) cs)))"
      by (rule Cons.IH [OF c(3)])
    also have "\<dots> = Inr (foldl (Write H) hasher contents,
        data ++ map_of (rev (zip (map FileInfo_Name (filter (\<lambda>f. \<not> IsDir f) (fi # files))) contents)))"
      unfolding eq using False c(1) by simp
    finally show ?thesis .
  qed
qed

lemma readFiles_Inr_reads:
  "readFiles fs H dir files hasher data = Inr r \<Longrightarrow>
   \<exists>contents. map (\<lambda>f. ReadFile fs (filepath_Join fs dir (FileInfo_Name f))) (filter (\<lambda>f. \<not> IsDir f) files)
     = map Inr contents"
proof (induction files arbitrary: hasher data)
  case Nil
  then show ?case by simp
next
  case (Cons fi files)
  show ?case
  proof (cases "IsDir fi")
    case True
    with Cons show ?thesis by simp
  next
    case False
    with Cons.prems obtain c where c: "ReadFile fs (filepath_Join fs dir (FileInfo_Name fi)) = Inr c"
      by (auto split: sum.splits)
    with False Cons.prems Cons.IH obtain cs where
      "map (\<lambda>f. ReadFile fs (filepath_Join fs dir (FileInfo_Name f))) (filter (\<lambda>f. \<not> IsDir f) files) = map Inr cs"
      by fastforce
    with False c have "map (\<lambda>f. ReadFile fs (filepath_Join fs dir (FileInfo_Name f))) (filter (\<lambda>f. \<not> IsDir f) (fi # files)) = map Inr (c # cs)"
      by simp
    then show ?thesis by blast
  qed
qed

lemma readFiles_read_fails:
  "f \<in> set files \<Longrightarrow> \<not> IsDir f \<Longrightarrow> ReadFile fs (filepath_Join fs dir (FileInfo_Name f)) = Inl e \<Longrightarrow>
   \<exists>e'. readFiles fs H dir files hasher data = Inl e'"
proof (induction files arbitrary: hasher data)
  case Nil
  then show ?case by simp
next
  case (Cons fi files)
  then show ?case
    by (cases "ReadFile fs (filepath_Join fs dir (FileInfo_Name fi))") auto
qed


lemma readFiles_entries_cong:
  "entries fs1 dir files1 = entries fs2 dir files2 \<Longrightarrow>
   readFiles fs1 H dir files1 hasher data = readFiles fs2 H dir files2 hasher data"
proof (induction files1 arbitrary: files2 hasher data)
  case Nil
  then show ?case by (simp add: entries_def)
next
  case (Cons f1 files1)
  then obtain f2 files2' where f2: "files2 = f2 # files2'"
    by (cases files2) (auto simp: entries_def)
  with Cons.prems have same: "FileInfo_Name f1 = FileInfo_Name f2" "IsDir f1 = IsDir f2"
      "\<not> IsDir f1 \<Longrightarrow> ReadFile fs1 (filepath_Join fs1 dir (FileInfo_Name f1))
         = ReadFile fs2 (filepath_Join fs2 dir (FileInfo_Name f2))"
      and rest: "entries fs1 dir files1 = entries fs2 dir files2'"
    by (auto simp: entries_def split: if_splits)
  show ?case
  proof (cases "IsDir f1")
    case True
    then show ?thesis
      using same(2) Cons.IH [OF rest] by (simp add: f2)
  next
    case False
    note reads = same(3) [OF False]
    show ?thesis
    proof (cases "ReadFile fs2 (filepath_Join fs2 dir (FileInfo_Name f2))")
      case (Inl e)
      then show ?thesis
        using False reads same(1,2) by (simp add: f2)
    next
      case (Inr b)
      have "readFiles fs1 H dir files1 (Write H hasher b) (data(FileInfo_Name f2 \<mapsto> b))
          = readFiles fs2 H dir files2' (Write H hasher b) (data(FileInfo_Name f2 \<mapsto> b))"
        by (rule Cons.IH [OF rest])
      then show ?thesis
        using False reads same(1,2) Inr by (simp add: f2)
    qed
  qed
qed

lemma readFiles_filter:
  "readFiles fs H dir (filter (\<lambda>f. \<not> IsDir f) files) hasher data
     = readFiles fs H dir files hasher data"
  by (induction files arbitrary: hasher data) (auto split: sum.splits)

lemma readFiles_without_subdirectories:
  "readFiles (without_subdirectories fs dir) H dir files hasher data
     = readFiles fs H dir files hasher data"
  by (rule readFiles_entries_cong) (simp add: entries_def without_subdirectories_def)

lemma build_reads_ok:
  assumes "ReadDir fs dir = Inr files"
    and "map (\<lambda>f. ReadFile fs (filepath_Join fs dir (FileInfo_Name f))) (filter (\<lambda>f. \<not> IsDir f) files)
           = map Inr contents"
  shows "buildConfigMapFromConfigDir fs H dir namePrefix namespace appUID
     = (Some \<lparr>ConfigMap_Name = namePrefix @ ''-''
                 @ decimal (unat (Sum32 H (foldl (Write H) (NewHash32 H) (contents @ [dir, namespace, appUID])))),
              Namespace = namespace,
              Data = map_of (rev (zip (map FileInfo_Name (filter (\<lambda>f. \<not> IsDir f) files)) contents))\<rparr>,
        None)"
  using assms(1) readFiles_reads_ok [OF assms(2), of H "NewHash32 H" Map.empty]
  by (simp add: buildConfigMapFromConfigDir_def)

lemma build_Some_reads:
  assumes "buildConfigMapFromConfigDir fs H dir namePrefix namespace appUID = (Some cm, err)"
    and "ReadDir fs dir = Inr files"
  shows "\<exists>contents. map (\<lambda>f. ReadFile fs (filepath_Join fs dir (FileInfo_Name f)))
            (filter (\<lambda>f. \<not> IsDir f) files) = map Inr contents"
proof (cases "readFiles fs H dir files (NewHash32 H) Map.empty")
  case (Inl e)
  with assms show ?thesis by (simp add: buildConfigMapFromConfigDir_def)
next
  case (Inr r)
  then show ?thesis by (rule readFiles_Inr_reads)
qed

lemma build_error_nil:
  "buildConfigMapFromConfigDir fs H dir namePrefix namespace appUID = (cm, Some err) \<Longrightarrow> cm = None"
  by (auto simp: buildConfigMapFromConfigDir_def Let_def split: sum.splits prod.splits)

lemma build_nil_error:
  "buildConfigMapFromConfigDir fs H dir namePrefix namespace appUID = (None, err) \<Longrightarrow> err \<noteq> None"
  by (auto simp: buildConfigMapFromConfigDir_def Let_def split: sum.splits prod.splits)

lemma map_of_rev_distinct:
  "distinct (map fst zs) \<Longrightarrow> map_of (rev zs) = map_of zs"
  by (induction zs) (auto simp: map_add_def fun_eq_iff image_iff split: option.splits dest!: map_of_SomeD)


section \<open>Determinism of the bundle builder\<close>





section \<open>Content fidelity\<close>

text \<open>
  C3. The data map of the returned ConfigMap has exactly the names of the entries that
  are not directories as its keys, and maps each of them to the content read for it (the
  entries of a listing have distinct names); subdirectory entries are in neither the map
  nor the hash: dropping them from the listing changes nothing of the result.
\<close>

theorem content_fidelity:
  assumes "buildConfigMapFromConfigDir fs H dir namePrefix namespace appUID = (Some cm, err)"
    and "ReadDir fs dir = Inr files"
  shows "(\<exists>contents.
            map (\<lambda>f. ReadFile fs (filepath_Join fs dir (FileInfo_Name f))) (filter (\<lambda>f. \<not> IsDir f) files)
              = map Inr contents
            \<and> Data cm = map_of (rev (zip (map FileInfo_Name (filter (\<lambda>f. \<not> IsDir f) files)) contents)))
         \<and> dom (Data cm) = FileInfo_Name ` {f \<in> set files. \<not> IsDir f}
         \<and> (distinct (map FileInfo_Name files) \<longrightarrow>
              (\<forall>f \<in> set files. map_option Inr (Data cm (FileInfo_Name f))
                 = (if IsDir f then None
                    else Some (ReadFile fs (filepath_Join fs dir (FileInfo_Name f))))))
         \<and> buildConfigMapFromConfigDir (without_subdirectories fs dir) H dir namePrefix namespace appUID
             = buildConfigMapFromConfigDir fs H dir namePrefix namespace appUID"
proof -
  let ?regs = "filter (\<lambda>f. \<not> IsDir f) files"
  let ?read = "\<lambda>f. ReadFile fs (filepath_Join fs dir (FileInfo_Name f))"
  from build_Some_reads [OF assms] obtain contents where reads: "map ?read ?regs = map Inr contents"
    by blast
  then have len: "length ?regs = length contents"
    by (metis length_map)
  from assms(1) build_reads_ok [OF assms(2) reads, of H namePrefix namespace appUID]
  have data: "Data cm = map_of (rev (zip (map FileInfo_Name ?regs) contents))"
    by auto
  have doms: "dom (Data cm) = FileInfo_Name ` {f \<in> set files. \<not> IsDir f}"
  proof -
    have "dom (Data cm) = fst ` set (zip (map FileInfo_Name ?regs) contents)"
      by (simp add: data dom_map_of_conv_image_fst)
    also have "\<dots> = set (map FileInfo_Name ?regs)"
      using len by (metis length_map map_fst_zip set_map)
    finally show ?thesis by simp
  qed
  have pointwise: "map_option Inr (Data cm (FileInfo_Name f))
      = (if IsDir f then None else Some (?read f))"
    if dist: "distinct (map FileInfo_Name files)" and f: "f \<in> set files" for f
  proof (cases "IsDir f")
    case True
    have "FileInfo_Name f \<notin> dom (Data cm)"
    proof
      assume "FileInfo_Name f \<in> dom (Data cm)"
      with doms obtain g where g: "g \<in> set files" "\<not> IsDir g" "FileInfo_Name g = FileInfo_Name f"
        by auto
      with dist f have "g = f"
        by (meson distinct_map inj_onD)
      with g True show False by simp
    qed
    with True show ?thesis by (simp add: domIff)
  next
    case False
    with f have "f \<in> set ?regs" by simp
    then obtain i where i: "i < length ?regs" "?regs ! i = f"
      by (meson in_set_conv_nth)
    have dregs: "distinct (map FileInfo_Name ?regs)"
      using dist by (simp add: distinct_map_filter)
    then have "Data cm = map_of (zip (map FileInfo_Name ?regs) contents)"
      using len by (simp add: data map_of_rev_distinct)
    moreover have "map_of (zip (map FileInfo_Name ?regs) contents) (map FileInfo_Name ?regs ! i)
        = Some (contents ! i)"
      using len dregs i(1) by (intro map_of_zip_nth) simp_all
    moreover have "Inr (contents ! i) = ?read f"
    proof -
      have "map Inr contents ! i = map ?read ?regs ! i"
        by (simp only: reads)
      then show ?thesis using i len by simp
    qed
    ultimately show ?thesis
      using False i by simp
  qed
  have "readFiles (without_subdirectories fs dir) H dir ?regs (NewHash32 H) Map.empty
      = readFiles fs H dir files (NewHash32 H) Map.empty"
    by (simp only: readFiles_without_subdirectories readFiles_filter)
  moreover have "ReadDir (without_subdirectories fs dir) dir = Inr ?regs"
    by (simp add: without_subdirectories_def assms(2))
  ultimately have "buildConfigMapFromConfigDir (without_subdirectories fs dir) H dir namePrefix namespace appUID
      = buildConfigMapFromConfigDir fs H dir namePrefix namespace appUID"
    by (simp add: buildConfigMapFromConfigDir_def assms(2))
  with reads data doms pointwise show ?thesis
    by blast
qed



text \<open>
  The end-to-end scenario: a directory with \<^verbatim>\<open>log4j.properties\<close> = \<^verbatim>\<open>b=2\<close>,
  \<^verbatim>\<open>spark-defaults.conf\<close> = \<^verbatim>\<open>a=1\<close> and a subdirectory, prefix
  \<^verbatim>\<open>spark-config-map\<close>, namespace \<^verbatim>\<open>ns1\<close>, owner \<^verbatim>\<open>uid-123\<close>.
\<close>

lemma sample_reads:
  "map (\<lambda>f. ReadFile sample_os (filepath_Join sample_os ''/etc/spark/conf'' (FileInfo_Name f)))
     (filter (\<lambda>f. \<not> IsDir f) sample_listing) = map Inr [''b=2'', ''a=1'']"
  by (simp add: sample_os_def sample_listing_def)

lemma sample_hash:
  "Sum32 fnv32 (Write fnv32 (Write fnv32 (Write fnv32
     (foldl (Write fnv32) (NewHash32 fnv32) [''b=2'', ''a=1'']) ''/etc/spark/conf'') ''ns1'') ''uid-123'')
   = 2052736648"
  by (simp add: fnv32_def)

lemma sample_hash_empty:
  "Sum32 fnv32 (Write fnv32 (Write fnv32 (Write fnv32 (NewHash32 fnv32) ''/empty'') ''ns1'') ''uid-123'')
   = 3990353348"
  by (simp add: fnv32_def)

lemma decimal_sample: "decimal 2052736648 = ''2052736648''"
  by (simp add: decimal.simps)

lemma decimal_sample_empty: "decimal 3990353348 = ''3990353348''"
  by (simp add: decimal.simps)

lemma sample_build:
  "buildConfigMapFromConfigDir sample_os fnv32 ''/etc/spark/conf'' ''spark-config-map'' ''ns1'' ''uid-123''
     = (Some sample_bundle, None)"
proof -
  have dir: "ReadDir sample_os ''/etc/spark/conf'' = Inr sample_listing"
    by (simp add: sample_os_def)
  have names: "map FileInfo_Name (filter (\<lambda>f. \<not> IsDir f) sample_listing)
      = [''log4j.properties'', ''spark-defaults.conf'']"
    by (simp add: sample_listing_def)
  show ?thesis
    unfolding build_reads_ok [OF dir sample_reads] names sample_bundle_def
    using sample_hash by (simp add: decimal_sample)
qed

text \<open>The scenario's bundle has the two files and nothing of the subdirectory.\<close>

theorem content_fidelity_witness:
  "buildConfigMapFromConfigDir sample_os fnv32 ''/etc/spark/conf'' ''spark-config-map'' ''ns1'' ''uid-123''
     = (Some sample_bundle, None)
   \<and> ReadDir sample_os ''/etc/spark/conf'' = Inr sample_listing
   \<and> dom (Data sample_bundle) = FileInfo_Name ` {f \<in> set sample_listing. \<not> IsDir f}
   \<and> dom (Data sample_bundle) = {''log4j.properties'', ''spark-defaults.conf''}
   \<and> Data sample_bundle ''log4j.properties'' = Some ''b=2''
   \<and> Data sample_bundle ''spark-defaults.conf'' = Some ''a=1''
   \<and> Data sample_bundle ''templates'' = None
   \<and> buildConfigMapFromConfigDir (without_subdirectories sample_os ''/etc/spark/conf'') fnv32
         ''/etc/spark/conf'' ''spark-config-map'' ''ns1'' ''uid-123''
       = buildConfigMapFromConfigDir sample_os fnv32 ''/etc/spark/conf'' ''spark-config-map'' ''ns1'' ''uid-123''"
proof -
  have dir: "ReadDir sample_os ''/etc/spark/conf'' = Inr sample_listing"
    by (simp add: sample_os_def)
  note fidelity = content_fidelity [OF sample_build dir]
  from fidelity have keys: "dom (Data sample_bundle) = FileInfo_Name ` {f \<in> set sample_listing. \<not> IsDir f}"
    by blast
  from fidelity have dirs: "buildConfigMapFromConfigDir (without_subdirectories sample_os ''/etc/spark/conf'') fnv32
         ''/etc/spark/conf'' ''spark-config-map'' ''ns1'' ''uid-123''
       = buildConfigMapFromConfigDir sample_os fnv32 ''/etc/spark/conf'' ''spark-config-map'' ''ns1'' ''uid-123''"
    by blast
  have vals: "dom (Data sample_bundle) = {''log4j.properties'', ''spark-defaults.conf''}"
    "Data sample_bundle ''log4j.properties'' = Some ''b=2''"
    "Data sample_bundle ''spark-defaults.conf'' = Some ''a=1''"
    "Data sample_bundle ''templates'' = None"
    by (auto simp: sample_bundle_def)
  from sample_build dir keys dirs vals show ?thesis
    by blast
qed

section \<open>The bundle name\<close>

text \<open>
  C4. When the directory can be listed and its files read, the bundle is built and its
  name is the prefix, a hyphen and the decimal form of the 32-bit sum of a hasher that
  was fed the contents of the files that are not directories, in listing order, then
  the directory path, the namespace and the owner UID. For an empty listing the hasher
  is fed the three context strings only.
\<close>

theorem bundle_name:
  assumes "ReadDir fs dir = Inr files"
    and "map (\<lambda>f. ReadFile fs (filepath_Join fs dir (FileInfo_Name f))) (filter (\<lambda>f. \<not> IsDir f) files)
           = map Inr contents"
  shows "\<exists>cm. buildConfigMapFromConfigDir fs H dir namePrefix namespace appUID = (Some cm, None)
     \<and> ConfigMap_Name cm = namePrefix @ ''-'' @ decimal (unat (Sum32 H
          (Write H (Write H (Write H (foldl (Write H) (NewHash32 H) contents) dir) namespace) appUID)))
     \<and> unat (Sum32 H
          (Write H (Write H (Write H (foldl (Write H) (NewHash32 H) contents) dir) namespace) appUID))
          < 2 ^ 32
     \<and> (files = [] \<longrightarrow> ConfigMap_Name cm = namePrefix @ ''-'' @ decimal (unat (Sum32 H
          (Write H (Write H (Write H (NewHash32 H) dir) namespace) appUID))))"
proof -
  have bound: "unat w < 2 ^ 32" for w :: "32 word"
    using unsigned_less [of w, where ?'a = nat] by simp
  have "files = [] \<Longrightarrow> contents = []"
    using assms(2) by simp
  then show ?thesis
    using build_reads_ok [OF assms, of H namePrefix namespace appUID] bound by auto
qed

text \<open>The empty directory and the scenario's directory, under the sample hasher.\<close>

theorem bundle_name_witness:
  "ReadDir sample_os ''/empty'' = Inr []
   \<and> (\<exists>cm. buildConfigMapFromConfigDir sample_os fnv32 ''/empty'' ''spark-config-map'' ''ns1'' ''uid-123''
              = (Some cm, None)
            \<and> ConfigMap_Name cm = ''spark-config-map-3990353348'')
   \<and> ReadDir sample_os ''/etc/spark/conf'' = Inr sample_listing
   \<and> (\<exists>cm. buildConfigMapFromConfigDir sample_os fnv32 ''/etc/spark/conf'' ''spark-config-map'' ''ns1'' ''uid-123''
              = (Some cm, None)
            \<and> ConfigMap_Name cm = ''spark-config-map-2052736648'')"
proof -
  have empty: "ReadDir sample_os ''/empty'' = Inr []"
    by (simp add: sample_os_def)
  have none: "map (\<lambda>f. ReadFile sample_os (filepath_Join sample_os ''/empty'' (FileInfo_Name f)))
      (filter (\<lambda>f. \<not> IsDir f) []) = map Inr []"
    by simp
  have dir: "ReadDir sample_os ''/etc/spark/conf'' = Inr sample_listing"
    by (simp add: sample_os_def)
  from bundle_name [OF empty none, of fnv32 "''spark-config-map''" "''ns1''" "''uid-123''"]
  have e: "\<exists>cm. buildConfigMapFromConfigDir sample_os fnv32 ''/empty'' ''spark-config-map'' ''ns1'' ''uid-123''
              = (Some cm, None)
            \<and> ConfigMap_Name cm = ''spark-config-map-3990353348''"
    unfolding foldl.simps sample_hash_empty by (simp add: decimal_sample_empty)
  from bundle_name [OF dir sample_reads, of fnv32 "''spark-config-map''" "''ns1''" "''uid-123''"]
  have f: "\<exists>cm. buildConfigMapFromConfigDir sample_os fnv32 ''/etc/spark/conf'' ''spark-config-map'' ''ns1'' ''uid-123''
              = (Some cm, None)
            \<and> ConfigMap_Name cm = ''spark-config-map-2052736648''"
    unfolding sample_hash by (auto simp: decimal_sample)
  from empty e dir f show ?thesis by blast
qed

section \<open>The error branch of the provisioner\<close>

text \<open>
  C9. Whenever \<^verbatim>\<open>buildConfigMapFromConfigDir\<close> returns an error, the ConfigMap pointer
  it returns is nil, and \<^verbatim>\<open>createConfigMap\<close>, which reads \<^verbatim>\<open>configMap.Name\<close> in its
  error branch, panics with a nil-pointer dereference. This is so when the directory
  cannot be listed and when a listed file cannot be read. \<^verbatim>\<open>createConfigMap\<close>
  returns only if the bundle was built.
\<close>

theorem createConfigMap_error_branch:
  "(\<forall>cm err. buildConfigMapFromConfigDir fs H dir namePrefix namespace (UID app) = (cm, Some err)
       \<longrightarrow> cm = None
         \<and> createConfigMap fs H kubeClient dir namespace namePrefix app = Panic NilPointerDereference)
   \<and> (\<forall>err. ReadDir fs dir = Inl err
       \<longrightarrow> createConfigMap fs H kubeClient dir namespace namePrefix app = Panic NilPointerDereference)
   \<and> (\<forall>files f err. ReadDir fs dir = Inr files \<and> f \<in> set files \<and> \<not> IsDir f
         \<and> ReadFile fs (filepath_Join fs dir (FileInfo_Name f)) = Inl err
       \<longrightarrow> createConfigMap fs H kubeClient dir namespace namePrefix app = Panic NilPointerDereference)
   \<and> (\<forall>r. createConfigMap fs H kubeClient dir namespace namePrefix app = Return r
       \<longrightarrow> (\<exists>cm. buildConfigMapFromConfigDir fs H dir namePrefix namespace (UID app) = (Some cm, None)))"
proof -
  let ?build = "buildConfigMapFromConfigDir fs H dir namePrefix namespace (UID app)"
  let ?create = "createConfigMap fs H kubeClient dir namespace namePrefix app"
  have err: "cm = None \<and> ?create = Panic NilPointerDereference" if "?build = (cm, Some err)" for cm err
  proof -
    from that have "cm = None" by (rule build_error_nil)
    with that show ?thesis by (simp add: createConfigMap_def deref_Name_def)
  qed
  have listing: "?create = Panic NilPointerDereference" if "ReadDir fs dir = Inl e" for e
  proof -
    from that have "?build = (None, Some e)" by (simp add: buildConfigMapFromConfigDir_def)
    then show ?thesis using err by blast
  qed
  have read: "?create = Panic NilPointerDereference"
    if "ReadDir fs dir = Inr files" "f \<in> set files" "\<not> IsDir f"
      "ReadFile fs (filepath_Join fs dir (FileInfo_Name f)) = Inl e" for files f e
  proof -
    from readFiles_read_fails [OF that(2,3,4), of H "NewHash32 H" Map.empty] obtain e'
      where "readFiles fs H dir files (NewHash32 H) Map.empty = Inl e'"
      by blast
    with that(1) have "?build = (None, Some e')" by (simp add: buildConfigMapFromConfigDir_def)
    then show ?thesis using err by blast
  qed
  have total: "\<exists>cm. ?build = (Some cm, None)" if "?create = Return r" for r
  proof (cases ?build)
    case (Pair cm e)
    show ?thesis
    proof (cases e)
      case None
      with Pair build_nil_error [of fs H dir namePrefix namespace "UID app" e] show ?thesis
        by (cases cm) auto
    next
      case (Some err')
      with Pair err that show ?thesis by fastforce
    qed
  qed
  from err listing read total show ?thesis by blast
qed

text \<open>A missing directory and a directory with an unreadable file.\<close>

theorem createConfigMap_error_branch_witness:
  "buildConfigMapFromConfigDir sample_os fnv32 ''/missing'' ''spark-config-map'' ''ns1'' (UID sample_app)
     = (None, Some (Error ''no such file or directory''))
   \<and> createConfigMap sample_os fnv32 accepting_client ''/missing'' ''ns1'' ''spark-config-map'' sample_app
     = Panic NilPointerDereference
   \<and> buildConfigMapFromConfigDir sample_os fnv32 ''/locked'' ''spark-config-map'' ''ns1'' (UID sample_app)
     = (None, Some (Error ''permission denied''))
   \<and> createConfigMap sample_os fnv32 accepting_client ''/locked'' ''ns1'' ''spark-config-map'' sample_app
     = Panic NilPointerDereference"
proof -
  have missing: "buildConfigMapFromConfigDir sample_os fnv32 ''/missing'' ''spark-config-map'' ''ns1'' (UID sample_app)
      = (None, Some (Error ''no such file or directory''))"
    by (simp add: buildConfigMapFromConfigDir_def sample_os_def)
  have locked: "buildConfigMapFromConfigDir sample_os fnv32 ''/locked'' ''spark-config-map'' ''ns1'' (UID sample_app)
      = (None, Some (Error ''permission denied''))"
    by (simp add: buildConfigMapFromConfigDir_def sample_os_def)
  from missing locked
    createConfigMap_error_branch [of sample_os fnv32 "''/missing''" "''spark-config-map''" "''ns1''" sample_app accepting_client]
    createConfigMap_error_branch [of sample_os fnv32 "''/locked''" "''spark-config-map''" "''ns1''" sample_app accepting_client]
  show ?thesis by blast
qed

section \<open>A nil \<^verbatim>\<open>SparkConf\<close> map\<close>

text \<open>
  C10. \<^verbatim>\<open>AddConfigMapAnnotation\<close> never initialises \<^verbatim>\<open>app.Spec.SparkConf\<close>: on an
  application whose map is nil it panics with an assignment to an entry in a nil map,
  and so do \<^verbatim>\<open>CreateSparkConfigMap\<close> and \<^verbatim>\<open>CreateHadoopConfigMap\<close> once the object
  has been created. On a map that is not nil the call returns.
\<close>

theorem nil_SparkConf_panics:
  "(SparkConf app = None
      \<longrightarrow> AddConfigMapAnnotation app annotationConfKey key val = Panic AssignmentToEntryInNilMap)
   \<and> (SparkConf app \<noteq> None
      \<longrightarrow> (\<exists>app'. AddConfigMapAnnotation app annotationConfKey key val = Return app'))
   \<and> (SparkConf app = None
        \<and> createConfigMap fs H kubeClient dir namespace SparkConfigMapNamePrefix app = Return (name, None)
      \<longrightarrow> CreateSparkConfigMap fs H kubeClient dir namespace app = Panic AssignmentToEntryInNilMap)
   \<and> (SparkConf app = None
        \<and> createConfigMap fs H kubeClient dir namespace HadoopConfigMapNamePrefix app = Return (name, None)
      \<longrightarrow> CreateHadoopConfigMap fs H kubeClient dir namespace app = Panic AssignmentToEntryInNilMap)"
proof -
  have nil: "AddConfigMapAnnotation app k s v = Panic AssignmentToEntryInNilMap"
    if "SparkConf app = None" for k s v
    using that by (simp add: AddConfigMapAnnotation_def map_index_def map_assign_def)
  have non_nil: "\<exists>app'. AddConfigMapAnnotation app annotationConfKey key val = Return app'"
    if "SparkConf app \<noteq> None"
    using that
    by (auto simp: AddConfigMapAnnotation_def map_index_def map_assign_def split: option.splits)
  have spark: "CreateSparkConfigMap fs H kubeClient dir namespace app = Panic AssignmentToEntryInNilMap"
    if "SparkConf app = None"
      "createConfigMap fs H kubeClient dir namespace SparkConfigMapNamePrefix app = Return (name, None)"
    using that(2) nil [OF that(1)] by (simp add: CreateSparkConfigMap_def)
  have hadoop: "CreateHadoopConfigMap fs H kubeClient dir namespace app = Panic AssignmentToEntryInNilMap"
    if "SparkConf app = None"
      "createConfigMap fs H kubeClient dir namespace HadoopConfigMapNamePrefix app = Return (name, None)"
    using that(2) nil [OF that(1)] by (simp add: CreateHadoopConfigMap_def)
  from nil non_nil spark hadoop show ?thesis by blast
qed

text \<open>
  The zero application, with and without a bundle to register, and the sample
  application, whose map is not nil.
\<close>

theorem nil_SparkConf_panics_witness:
  "SparkConf zero_app = None
   \<and> AddConfigMapAnnotation zero_app ''spark.kubernetes.driver.annotations''
        ''apache-spark-on-k8s/spark-config-map'' ''spark-config-map-2052736648''
      = Panic AssignmentToEntryInNilMap
   \<and> createConfigMap sample_os fnv32 accepting_client ''/etc/spark/conf'' ''ns1''
        SparkConfigMapNamePrefix (zero_app\<lparr>UID := ''uid-123''\<rparr>)
      = Return (''spark-config-map-2052736648'', None)
   \<and> CreateSparkConfigMap sample_os fnv32 accepting_client ''/etc/spark/conf'' ''ns1''
        (zero_app\<lparr>UID := ''uid-123''\<rparr>)
      = Panic AssignmentToEntryInNilMap
   \<and> (\<exists>app'. AddConfigMapAnnotation sample_app ''spark.kubernetes.driver.annotations''
        ''apache-spark-on-k8s/spark-config-map'' ''spark-config-map-2052736648'' = Return app')"
proof -
  have nil: "SparkConf zero_app = None" "SparkConf (zero_app\<lparr>UID := ''uid-123''\<rparr>) = None"
    by (simp_all add: zero_app_def)
  have non_nil: "SparkConf sample_app \<noteq> None"
    by (simp add: sample_app_def)
  have created: "createConfigMap sample_os fnv32 accepting_client ''/etc/spark/conf'' ''ns1''
        SparkConfigMapNamePrefix (zero_app\<lparr>UID := ''uid-123''\<rparr>)
      = Return (''spark-config-map-2052736648'', None)"
    using sample_build
    by (simp add: createConfigMap_def SparkConfigMapNamePrefix_def zero_app_def accepting_client_def
        deref_Name_def sample_bundle_def)
  from nil non_nil created
    nil_SparkConf_panics [of zero_app "''spark.kubernetes.driver.annotations''"
      "''apache-spark-on-k8s/spark-config-map''" "''spark-config-map-2052736648''"]
    nil_SparkConf_panics [of "zero_app\<lparr>UID := ''uid-123''\<rparr>" _ _ _ sample_os fnv32 accepting_client
      "''/etc/spark/conf''" "''ns1''" "''spark-config-map-2052736648''"]
    nil_SparkConf_panics [of sample_app "''spark.kubernetes.driver.annotations''"
      "''apache-spark-on-k8s/spark-config-map''" "''spark-config-map-2052736648''"]
  show ?thesis by blast
qed

section \<open>Failures of the pipeline\<close>

text \<open>
  When the object store rejects the create and returns an object with its error, the
  error reaches the caller as it is and the application is left as it was. When the
  store returns a nil object with its error, \<^verbatim>\<open>createConfigMap\<close> panics.
\<close>

lemma create_failure_returned:
  assumes "buildConfigMapFromConfigDir fs H dir namePrefix namespace (UID app) = (Some cm, None)"
    and "Create kubeClient namespace (Some cm) = (Some cm', Some err)"
  shows "createConfigMap fs H kubeClient dir namespace namePrefix app = Return (ConfigMap_Name cm', Some err)"
  using assms by (simp add: createConfigMap_def deref_Name_def)

lemma CreateSparkConfigMap_create_failure:
  assumes "buildConfigMapFromConfigDir fs H dir SparkConfigMapNamePrefix namespace (UID app) = (Some cm, None)"
    and "Create kubeClient namespace (Some cm) = (Some cm', Some err)"
  shows "CreateSparkConfigMap fs H kubeClient dir namespace app = Return (Some err, app)"
  using create_failure_returned [OF assms] by (simp add: CreateSparkConfigMap_def)

lemma CreateHadoopConfigMap_create_failure:
  assumes "buildConfigMapFromConfigDir fs H dir HadoopConfigMapNamePrefix namespace (UID app) = (Some cm, None)"
    and "Create kubeClient namespace (Some cm) = (Some cm', Some err)"
  shows "CreateHadoopConfigMap fs H kubeClient dir namespace app = Return (Some err, app)"
  using create_failure_returned [OF assms] by (simp add: CreateHadoopConfigMap_def)

lemma create_failure_nil_panics:
  assumes "buildConfigMapFromConfigDir fs H dir namePrefix namespace (UID app) = (Some cm, None)"
    and "Create kubeClient namespace (Some cm) = (None, Some err)"
  shows "createConfigMap fs H kubeClient dir namespace namePrefix app = Panic NilPointerDereference"
  using assms by (simp add: createConfigMap_def deref_Name_def)

lemma create_failure_sample:
  "CreateSparkConfigMap sample_os fnv32 rejecting_client ''/etc/spark/conf'' ''ns1'' sample_app
     = Return (Some (Error ''already exists''), sample_app)"
proof -
  have "buildConfigMapFromConfigDir sample_os fnv32 ''/etc/spark/conf'' SparkConfigMapNamePrefix ''ns1''
      (UID sample_app) = (Some sample_bundle, None)"
    using sample_build by (simp add: SparkConfigMapNamePrefix_def sample_app_def)
  moreover have "Create rejecting_client ''ns1'' (Some sample_bundle)
      = (Some \<lparr>ConfigMap_Name = [], Namespace = [], Data = Map.empty\<rparr>, Some (Error ''already exists''))"
    by (simp add: rejecting_client_def)
  ultimately show ?thesis
    by (rule CreateSparkConfigMap_create_failure)
qed

text \<open>
  C2. The claim is that every failure, an I/O error included, comes back to the caller
  as an error. On the sample file system a directory that cannot be listed and a file
  that cannot be read both end \<^verbatim>\<open>CreateSparkConfigMap\<close> and
  \<^verbatim>\<open>CreateHadoopConfigMap\<close> in a nil-pointer panic instead: \<^verbatim>\<open>createConfigMap\<close>
  reads \<^verbatim>\<open>configMap.Name\<close> on the nil pointer of the failed build.
\<close>

theorem io_failure_panics:
  "ReadDir sample_os ''/missing'' = Inl (Error ''no such file or directory'')
   \<and> CreateSparkConfigMap sample_os fnv32 accepting_client ''/missing'' ''ns1'' sample_app
       = Panic NilPointerDereference
   \<and> CreateHadoopConfigMap sample_os fnv32 accepting_client ''/missing'' ''ns1'' sample_app
       = Panic NilPointerDereference
   \<and> ReadFile sample_os (filepath_Join sample_os ''/locked'' ''secret'') = Inl (Error ''permission denied'')
   \<and> CreateSparkConfigMap sample_os fnv32 accepting_client ''/locked'' ''ns1'' sample_app
       = Panic NilPointerDereference
   \<and> CreateHadoopConfigMap sample_os fnv32 accepting_client ''/locked'' ''ns1'' sample_app
       = Panic NilPointerDereference"
  by (simp add: CreateSparkConfigMap_def CreateHadoopConfigMap_def createConfigMap_def
      buildConfigMapFromConfigDir_def deref_Name_def sample_os_def)


section \<open>The annotation registry, call by call\<close>

lemma AddConfigMapAnnotation_non_nil:
  assumes "SparkConf app = Some conf"
  shows "AddConfigMapAnnotation app annotationConfKey key val
     = Return (app\<lparr>SparkConf := Some (conf(annotationConfKey \<mapsto>
         (case conf annotationConfKey of
            None \<Rightarrow> key @ ''='' @ val
          | Some annotations \<Rightarrow> annotations @ '','' @ key @ ''='' @ val)))\<rparr>)"
  using assms
  by (simp add: AddConfigMapAnnotation_def map_index_def map_assign_def split: option.splits)

lemma AddConfigMapAnnotations_present:
  assumes "SparkConf app = Some conf" and "conf annotationConfKey = Some annotations"
  shows "AddConfigMapAnnotations app annotationConfKey es
     = Return (app\<lparr>SparkConf := Some (conf(annotationConfKey \<mapsto>
         annotations @ concat (map (\<lambda>e. '','' @ annotation_entry e) es)))\<rparr>)"
  using assms
proof (induction es arbitrary: app conf annotations)
  case Nil
  then have "conf(annotationConfKey \<mapsto> annotations) = conf"
    by (simp add: map_upd_triv)
  with Nil show ?case by simp
next
  case (Cons e es)
  obtain key val where e: "e = (key, val)" by (cases e)
  let ?conf = "conf(annotationConfKey \<mapsto> annotations @ '','' @ key @ ''='' @ val)"
  let ?app = "app\<lparr>SparkConf := Some ?conf\<rparr>"
  have step: "AddConfigMapAnnotation app annotationConfKey key val = Return ?app"
    using AddConfigMapAnnotation_non_nil [OF Cons.prems(1)] Cons.prems(2) by simp
  have p1: "SparkConf ?app = Some ?conf"
    by (simp del: fun_upd_apply)
  have p2: "?conf annotationConfKey = Some (annotations @ '','' @ key @ ''='' @ val)"
    by simp
  have "AddConfigMapAnnotations ?app annotationConfKey es
     = Return (app\<lparr>SparkConf := Some (conf(annotationConfKey \<mapsto>
         (annotations @ '','' @ key @ ''='' @ val) @ concat (map (\<lambda>e. '','' @ annotation_entry e) es)))\<rparr>)"
    unfolding Cons.IH [OF p1 p2] by (simp del: fun_upd_apply)
  with step show ?case
    by (simp add: e annotation_entry_def del: fun_upd_apply)
qed

lemma comma_join_Cons:
  "comma_join (e # es) = e @ concat (map (\<lambda>e'. '','' @ e') es)"
  by (induction es arbitrary: e) simp_all

lemma AddConfigMapAnnotations_absent:
  assumes "SparkConf app = Some conf" and "conf annotationConfKey = None" and "es \<noteq> []"
  shows "AddConfigMapAnnotations app annotationConfKey es
     = Return (app\<lparr>SparkConf := Some (conf(annotationConfKey \<mapsto>
         comma_join (map annotation_entry es)))\<rparr>)"
proof -
  from assms(3) obtain e rest where es: "es = e # rest" by (cases es) auto
  obtain key val where e: "e = (key, val)" by (cases e)
  let ?conf = "conf(annotationConfKey \<mapsto> key @ ''='' @ val)"
  let ?app = "app\<lparr>SparkConf := Some ?conf\<rparr>"
  have step: "AddConfigMapAnnotation app annotationConfKey key val = Return ?app"
    using AddConfigMapAnnotation_non_nil [OF assms(1)] assms(2) by simp
  have p1: "SparkConf ?app = Some ?conf"
    by (simp del: fun_upd_apply)
  have p2: "?conf annotationConfKey = Some (key @ ''='' @ val)"
    by simp
  have "AddConfigMapAnnotations ?app annotationConfKey rest
     = Return (app\<lparr>SparkConf := Some (conf(annotationConfKey \<mapsto>
         (key @ ''='' @ val) @ concat (map (\<lambda>e. '','' @ annotation_entry e) rest)))\<rparr>)"
    unfolding AddConfigMapAnnotations_present [OF p1 p2] by (simp del: fun_upd_apply)
  with step show ?thesis
    by (simp add: es e annotation_entry_def comma_join_Cons comp_def del: fun_upd_apply)
qed

lemma split_commas_no_comma:
  "CHR '','' \<notin> set s \<Longrightarrow> split_commas s = [s]"
  by (induction s) auto

lemma split_commas_append:
  "CHR '','' \<notin> set a \<Longrightarrow> split_commas (a @ '','' @ b) = a # split_commas b"
  by (induction a) auto

lemma split_commas_comma_join:
  "es \<noteq> [] \<Longrightarrow> \<forall>e \<in> set es. CHR '','' \<notin> set e \<Longrightarrow> split_commas (comma_join es) = es"
proof (induction es rule: comma_join.induct)
  case 1
  then show ?case by simp
next
  case (2 e)
  then show ?case by (simp add: split_commas_no_comma)
next
  case (3 e e' es)
  then have "split_commas (comma_join (e' # es)) = e' # es" by simp
  moreover have "CHR '','' \<notin> set e" using 3 by simp
  ultimately show ?case
    using split_commas_append [of e "comma_join (e' # es)"] by simp
qed

text \<open>
  C5, as stated, fails on an application whose \<^verbatim>\<open>SparkConf\<close> map is nil: the call
  appends nothing, it panics.
\<close>

theorem annotation_on_nil_map:
  "AddConfigMapAnnotation zero_app ''spark.kubernetes.driver.annotations'' ''cm-annot'' ''name1''
     = Panic AssignmentToEntryInNilMap"
  by (simp add: AddConfigMapAnnotation_def map_index_def map_assign_def zero_app_def)

text \<open>
  C5, amended: on an application whose \<^verbatim>\<open>SparkConf\<close> map is not nil, a call sets the
  annotation key to \<open>key=val\<close> when it is absent and appends \<open>,key=val\<close> to its
  value when it is present, and changes no other key. A sequence of calls on one key
  appends its entries in call order; from an absent key the value is the entries joined
  by commas, and when no entry holds a comma, splitting it at the commas gives back
  exactly the entries, as many as there were calls. Two calls with the same subkey give
  the entry twice.
\<close>

theorem annotations_appended:
  assumes "SparkConf app = Some conf"
  shows "AddConfigMapAnnotation app annotationConfKey key val
       = Return (app\<lparr>SparkConf := Some (conf(annotationConfKey \<mapsto>
           (case conf annotationConfKey of
              None \<Rightarrow> key @ ''='' @ val
            | Some annotations \<Rightarrow> annotations @ '','' @ key @ ''='' @ val)))\<rparr>)
     \<and> (\<forall>annotations. conf annotationConfKey = Some annotations \<longrightarrow>
          AddConfigMapAnnotations app annotationConfKey es
            = Return (app\<lparr>SparkConf := Some (conf(annotationConfKey \<mapsto>
                annotations @ concat (map (\<lambda>e. '','' @ annotation_entry e) es)))\<rparr>))
     \<and> (conf annotationConfKey = None \<and> es \<noteq> [] \<longrightarrow>
          AddConfigMapAnnotations app annotationConfKey es
            = Return (app\<lparr>SparkConf := Some (conf(annotationConfKey \<mapsto>
                comma_join (map annotation_entry es)))\<rparr>))
     \<and> (es \<noteq> [] \<and> (\<forall>e \<in> set es. CHR '','' \<notin> set (annotation_entry e)) \<longrightarrow>
          split_commas (comma_join (map annotation_entry es)) = map annotation_entry es
          \<and> length (split_commas (comma_join (map annotation_entry es))) = length es)
     \<and> (conf annotationConfKey = None \<longrightarrow>
          AddConfigMapAnnotations app annotationConfKey [(key, val), (key, val)]
            = Return (app\<lparr>SparkConf := Some (conf(annotationConfKey \<mapsto>
                key @ ''='' @ val @ '','' @ key @ ''='' @ val))\<rparr>))"
proof -
  have split: "split_commas (comma_join (map annotation_entry es)) = map annotation_entry es"
    if "es \<noteq> []" "\<forall>e \<in> set es. CHR '','' \<notin> set (annotation_entry e)"
    using that by (intro split_commas_comma_join) simp_all
  then have count: "length (split_commas (comma_join (map annotation_entry es))) = length es"
    if "es \<noteq> []" "\<forall>e \<in> set es. CHR '','' \<notin> set (annotation_entry e)"
    using that by simp
  have twice: "AddConfigMapAnnotations app annotationConfKey [(key, val), (key, val)]
            = Return (app\<lparr>SparkConf := Some (conf(annotationConfKey \<mapsto>
                key @ ''='' @ val @ '','' @ key @ ''='' @ val))\<rparr>)"
    if "conf annotationConfKey = None"
    using AddConfigMapAnnotations_absent [OF assms that, of "[(key, val), (key, val)]"]
    by (simp add: annotation_entry_def)
  have present: "\<forall>annotations. conf annotationConfKey = Some annotations \<longrightarrow>
          AddConfigMapAnnotations app annotationConfKey es
            = Return (app\<lparr>SparkConf := Some (conf(annotationConfKey \<mapsto>
                annotations @ concat (map (\<lambda>e. '','' @ annotation_entry e) es)))\<rparr>)"
    by (intro allI impI) (rule AddConfigMapAnnotations_present [OF assms])
  have absent: "conf annotationConfKey = None \<and> es \<noteq> [] \<longrightarrow>
          AddConfigMapAnnotations app annotationConfKey es
            = Return (app\<lparr>SparkConf := Some (conf(annotationConfKey \<mapsto>
                comma_join (map annotation_entry es)))\<rparr>)"
    using AddConfigMapAnnotations_absent [OF assms, of annotationConfKey es] by (intro impI) simp
  have parts: "es \<noteq> [] \<and> (\<forall>e \<in> set es. CHR '','' \<notin> set (annotation_entry e)) \<longrightarrow>
          split_commas (comma_join (map annotation_entry es)) = map annotation_entry es
          \<and> length (split_commas (comma_join (map annotation_entry es))) = length es"
    using split count by (intro impI) simp
  have dup: "conf annotationConfKey = None \<longrightarrow>
          AddConfigMapAnnotations app annotationConfKey [(key, val), (key, val)]
            = Return (app\<lparr>SparkConf := Some (conf(annotationConfKey \<mapsto>
                key @ ''='' @ val @ '','' @ key @ ''='' @ val))\<rparr>)"
    using twice by (intro impI)
  from AddConfigMapAnnotation_non_nil [OF assms, of annotationConfKey key val] present absent parts dup
  show ?thesis
    by (intro conjI)
qed

text \<open>The two calls of the specification's example, and a repeated call.\<close>

theorem annotations_appended_witness:
  "SparkConf sample_app = Some Map.empty
   \<and> AddConfigMapAnnotations sample_app ''spark.kubernetes.driver.annotations''
        [(''cm-annot'', ''name1''), (''cm-annot2'', ''name2'')]
      = Return (sample_app\<lparr>SparkConf := Some [''spark.kubernetes.driver.annotations''
          \<mapsto> ''cm-annot=name1,cm-annot2=name2'']\<rparr>)
   \<and> split_commas ''cm-annot=name1,cm-annot2=name2'' = [''cm-annot=name1'', ''cm-annot2=name2'']
   \<and> AddConfigMapAnnotations sample_app ''spark.kubernetes.driver.annotations''
        [(''cm-annot'', ''name1''), (''cm-annot'', ''name1'')]
      = Return (sample_app\<lparr>SparkConf := Some [''spark.kubernetes.driver.annotations''
          \<mapsto> ''cm-annot=name1,cm-annot=name1'']\<rparr>)"
proof -
  have conf: "SparkConf sample_app = Some Map.empty"
    by (simp add: sample_app_def)
  note appended = annotations_appended [OF conf, of "''spark.kubernetes.driver.annotations''"
      "''cm-annot''" "''name1''" "[(''cm-annot'', ''name1''), (''cm-annot2'', ''name2'')]"]
  from appended have two: "AddConfigMapAnnotations sample_app ''spark.kubernetes.driver.annotations''
        [(''cm-annot'', ''name1''), (''cm-annot2'', ''name2'')]
      = Return (sample_app\<lparr>SparkConf := Some [''spark.kubernetes.driver.annotations''
          \<mapsto> ''cm-annot=name1,cm-annot2=name2'']\<rparr>)"
    by (simp add: annotation_entry_def del: AddConfigMapAnnotations.simps)
  from appended have parts: "split_commas ''cm-annot=name1,cm-annot2=name2''
      = [''cm-annot=name1'', ''cm-annot2=name2'']"
    by (simp add: annotation_entry_def del: AddConfigMapAnnotations.simps)
  from appended have twice: "AddConfigMapAnnotations sample_app ''spark.kubernetes.driver.annotations''
        [(''cm-annot'', ''name1''), (''cm-annot'', ''name1'')]
      = Return (sample_app\<lparr>SparkConf := Some [''spark.kubernetes.driver.annotations''
          \<mapsto> ''cm-annot=name1,cm-annot=name1'']\<rparr>)"
    by (simp del: AddConfigMapAnnotations.simps)
  from conf two parts twice show ?thesis by blast
qed

section \<open>The volume entry\<close>

text \<open>
  C8, as stated, fails: the volume that \<^verbatim>\<open>addConfigMapVolumeToPod\<close> appends carries
  no read-only marking.
\<close>

theorem volume_not_marked_read_only:
  "\<not> Volume_marked_read_only
       (last (Volumes (snd (addConfigMapVolumeToPod ''spark-config-map-2052736648''
          ''spark-config-map-volume'' \<lparr>Volumes = []\<rparr>))))"
  by (simp add: addConfigMapVolumeToPod_def Volume_marked_read_only_def)

text \<open>
  C8, amended: \<^verbatim>\<open>addConfigMapVolumeToPod\<close> appends exactly one volume, backed by the
  ConfigMap of the given name and named by the given volume name, and returns that
  volume name; the volume entry itself carries no read-only marking. Read-only access
  is set on the mount that \<^verbatim>\<open>mountConfigMapToContainer\<close> adds for the volume.
\<close>

theorem volume_appended:
  "Volumes (snd (addConfigMapVolumeToPod configMapName configMapVolumeName pod))
     = Volumes pod
       @ [\<lparr>Volume_Name = configMapVolumeName,
           Volume_VolumeSource = \<lparr>ConfigMap = Some
             \<lparr>LocalObjectReference_Name = configMapName,
              Items = [], DefaultMode = None, Optional = None\<rparr>\<rparr>\<rparr>]
   \<and> fst (addConfigMapVolumeToPod configMapName configMapVolumeName pod) = configMapVolumeName
   \<and> \<not> Volume_marked_read_only
         (last (Volumes (snd (addConfigMapVolumeToPod configMapName configMapVolumeName pod))))
   \<and> ReadOnly (last (VolumeMounts (mountConfigMapToContainer
         (fst (addConfigMapVolumeToPod configMapName configMapVolumeName pod)) mountPath env container)))
   \<and> VolumeMount_Name (last (VolumeMounts (mountConfigMapToContainer
         (fst (addConfigMapVolumeToPod configMapName configMapVolumeName pod)) mountPath env container)))
       = configMapVolumeName"
  by (simp add: addConfigMapVolumeToPod_def mountConfigMapToContainer_def Volume_marked_read_only_def)

section \<open>Registration under both roles\<close>

text \<open>
  A name with a nil error comes out of \<^verbatim>\<open>createConfigMap\<close> only when the bundle was
  built and the object store returned an object for it; the name is that object's.
\<close>

lemma createConfigMap_created:
  assumes "createConfigMap fs H kubeClient dir namespace namePrefix app = Return (name, None)"
  shows "\<exists>cm cm'. buildConfigMapFromConfigDir fs H dir namePrefix namespace (UID app) = (Some cm, None)
           \<and> Create kubeClient namespace (Some cm) = (Some cm', None)
           \<and> ConfigMap_Name cm' = name"
proof (cases "buildConfigMapFromConfigDir fs H dir namePrefix namespace (UID app)")
  case (Pair built err)
  show ?thesis
  proof (cases err)
    case (Some e)
    with Pair assms show ?thesis
      by (simp add: createConfigMap_def split: outcome.splits)
  next
    case None
    with Pair build_nil_error [of fs H dir namePrefix namespace "UID app" err]
    obtain cm where cm: "built = Some cm" by (cases built) auto
    obtain created err' where created: "Create kubeClient namespace (Some cm) = (created, err')"
      by (cases "Create kubeClient namespace (Some cm)")
    with Pair None cm assms have "err' = None"
      by (cases err') (simp_all add: createConfigMap_def split: outcome.splits)
    with Pair None cm created assms obtain cm' where "created = Some cm'" "ConfigMap_Name cm' = name"
      by (cases created) (simp_all add: createConfigMap_def deref_Name_def)
    with Pair None cm created \<open>err' = None\<close> show ?thesis by simp
  qed
qed

lemma register_with_both_roles:
  assumes "SparkConf app = Some conf" and "driverKey \<noteq> executorKey"
  shows "(case AddConfigMapAnnotation app driverKey annotation name of
            Panic p \<Rightarrow> Panic p
          | Return app1 \<Rightarrow>
              (case AddConfigMapAnnotation app1 executorKey annotation name of
                 Panic p \<Rightarrow> Panic p
               | Return app2 \<Rightarrow> Return (None, f app2)))
     = Return (None, f (app\<lparr>SparkConf := Some (conf(
         driverKey \<mapsto> (case conf driverKey of
             None \<Rightarrow> annotation @ ''='' @ name
           | Some annotations \<Rightarrow> annotations @ '','' @ annotation @ ''='' @ name),
         executorKey \<mapsto> (case conf executorKey of
             None \<Rightarrow> annotation @ ''='' @ name
           | Some annotations \<Rightarrow> annotations @ '','' @ annotation @ ''='' @ name)))\<rparr>))"
proof -
  let ?driver = "case conf driverKey of
             None \<Rightarrow> annotation @ ''='' @ name
           | Some annotations \<Rightarrow> annotations @ '','' @ annotation @ ''='' @ name"
  let ?conf1 = "conf(driverKey \<mapsto> ?driver)"
  let ?app1 = "app\<lparr>SparkConf := Some ?conf1\<rparr>"
  have first: "AddConfigMapAnnotation app driverKey annotation name = Return ?app1"
    by (rule AddConfigMapAnnotation_non_nil [OF assms(1)])
  have conf1: "SparkConf ?app1 = Some ?conf1"
    by (simp del: fun_upd_apply)
  have "?conf1 executorKey = conf executorKey"
    using assms(2) by simp
  then have second: "AddConfigMapAnnotation ?app1 executorKey annotation name
      = Return (app\<lparr>SparkConf := Some (?conf1(executorKey \<mapsto> (case conf executorKey of
             None \<Rightarrow> annotation @ ''='' @ name
           | Some annotations \<Rightarrow> annotations @ '','' @ annotation @ ''='' @ name)))\<rparr>)"
    unfolding AddConfigMapAnnotation_non_nil [OF conf1] by (simp del: fun_upd_apply)
  show ?thesis
    unfolding first outcome.case second by (rule refl)
qed

lemma CreateSparkConfigMap_success:
  assumes "createConfigMap fs H kubeClient dir namespace SparkConfigMapNamePrefix app = Return (name, None)"
    and "SparkConf app = Some conf"
  shows "CreateSparkConfigMap fs H kubeClient dir namespace app
     = Return (None, app\<lparr>SparkConf := Some (conf(
         SparkDriverAnnotationsKey \<mapsto> (case conf SparkDriverAnnotationsKey of
             None \<Rightarrow> SparkConfigMapAnnotation @ ''='' @ name
           | Some annotations \<Rightarrow> annotations @ '','' @ SparkConfigMapAnnotation @ ''='' @ name),
         SparkExecutorAnnotationsKey \<mapsto> (case conf SparkExecutorAnnotationsKey of
             None \<Rightarrow> SparkConfigMapAnnotation @ ''='' @ name
           | Some annotations \<Rightarrow> annotations @ '','' @ SparkConfigMapAnnotation @ ''='' @ name))),
         SparkConfigMap := Some name\<rparr>)"
proof -
  have keys: "SparkDriverAnnotationsKey \<noteq> SparkExecutorAnnotationsKey"
    by (simp add: SparkDriverAnnotationsKey_def SparkExecutorAnnotationsKey_def)
  show ?thesis
    unfolding CreateSparkConfigMap_def assms(1) outcome.case prod.case option.case
    by (rule register_with_both_roles [OF assms(2) keys])
qed

lemma CreateHadoopConfigMap_success:
  assumes "createConfigMap fs H kubeClient dir namespace HadoopConfigMapNamePrefix app = Return (name, None)"
    and "SparkConf app = Some conf"
  shows "CreateHadoopConfigMap fs H kubeClient dir namespace app
     = Return (None, app\<lparr>SparkConf := Some (conf(
         SparkDriverAnnotationsKey \<mapsto> (case conf SparkDriverAnnotationsKey of
             None \<Rightarrow> HadoopConfigMapAnnotation @ ''='' @ name
           | Some annotations \<Rightarrow> annotations @ '','' @ HadoopConfigMapAnnotation @ ''='' @ name),
         SparkExecutorAnnotationsKey \<mapsto> (case conf SparkExecutorAnnotationsKey of
             None \<Rightarrow> HadoopConfigMapAnnotation @ ''='' @ name
           | Some annotations \<Rightarrow> annotations @ '','' @ HadoopConfigMapAnnotation @ ''='' @ name))),
         HadoopConfigMap := Some name\<rparr>)"
proof -
  have keys: "SparkDriverAnnotationsKey \<noteq> SparkExecutorAnnotationsKey"
    by (simp add: SparkDriverAnnotationsKey_def SparkExecutorAnnotationsKey_def)
  show ?thesis
    unfolding CreateHadoopConfigMap_def assms(1) outcome.case prod.case option.case
    by (rule register_with_both_roles [OF assms(2) keys])
qed

lemma CreateSparkConfigMap_succeeded:
  assumes "CreateSparkConfigMap fs H kubeClient dir namespace app = Return (None, app')"
  shows "\<exists>name conf.
      createConfigMap fs H kubeClient dir namespace SparkConfigMapNamePrefix app = Return (name, None)
      \<and> SparkConf app = Some conf"
proof (cases "createConfigMap fs H kubeClient dir namespace SparkConfigMapNamePrefix app")
  case (Panic p)
  with assms show ?thesis by (simp add: CreateSparkConfigMap_def)
next
  case (Return r)
  obtain name err where r: "r = (name, err)" by (cases r)
  show ?thesis
  proof (cases err)
    case (Some e)
    with Return r assms show ?thesis by (simp add: CreateSparkConfigMap_def)
  next
    case None
    show ?thesis
    proof (cases "SparkConf app")
      case nil: None
      then have "AddConfigMapAnnotation app SparkDriverAnnotationsKey SparkConfigMapAnnotation name
          = Panic AssignmentToEntryInNilMap"
        by (simp add: AddConfigMapAnnotation_def map_index_def map_assign_def)
      with Return r None assms show ?thesis by (simp add: CreateSparkConfigMap_def)
    next
      case (Some conf)
      with Return r None show ?thesis by simp
    qed
  qed
qed

lemma CreateHadoopConfigMap_succeeded:
  assumes "CreateHadoopConfigMap fs H kubeClient dir namespace app = Return (None, app')"
  shows "\<exists>name conf.
      createConfigMap fs H kubeClient dir namespace HadoopConfigMapNamePrefix app = Return (name, None)
      \<and> SparkConf app = Some conf"
proof (cases "createConfigMap fs H kubeClient dir namespace HadoopConfigMapNamePrefix app")
  case (Panic p)
  with assms show ?thesis by (simp add: CreateHadoopConfigMap_def)
next
  case (Return r)
  obtain name err where r: "r = (name, err)" by (cases r)
  show ?thesis
  proof (cases err)
    case (Some e)
    with Return r assms show ?thesis by (simp add: CreateHadoopConfigMap_def)
  next
    case None
    show ?thesis
    proof (cases "SparkConf app")
      case nil: None
      then have "AddConfigMapAnnotation app SparkDriverAnnotationsKey HadoopConfigMapAnnotation name
          = Panic AssignmentToEntryInNilMap"
        by (simp add: AddConfigMapAnnotation_def map_index_def map_assign_def)
      with Return r None assms show ?thesis by (simp add: CreateHadoopConfigMap_def)
    next
      case (Some conf)
      with Return r None show ?thesis by simp
    qed
  qed
qed


text \<open>
  C6. When \<^verbatim>\<open>CreateSparkConfigMap\<close> returns a nil error, the bundle was built with the
  prefix \<^verbatim>\<open>spark-config-map\<close> and created; the name of the created object is
  registered with the subkey \<^verbatim>\<open>apache-spark-on-k8s/spark-config-map\<close> under both
  \<^verbatim>\<open>spark.kubernetes.driver.annotations\<close> and
  \<^verbatim>\<open>spark.kubernetes.executor.annotations\<close>, set when the key was absent and appended
  after a comma when it was present, and \<^verbatim>\<open>app.Spec.SparkConfigMap\<close> points to that
  name; nothing else of the application changes. \<^verbatim>\<open>CreateHadoopConfigMap\<close> does the
  same with the prefix \<^verbatim>\<open>hadoop-config-map\<close>, the subkey
  \<^verbatim>\<open>apache-spark-on-k8s/hadoop-config-map\<close> and \<^verbatim>\<open>app.Spec.HadoopConfigMap\<close>.
\<close>

theorem annotations_registered:
  "(CreateSparkConfigMap fs H kubeClient sparkConfDir namespace app = Return (None, app') \<longrightarrow>
      (\<exists>name conf cm cm'.
         buildConfigMapFromConfigDir fs H sparkConfDir ''spark-config-map'' namespace (UID app)
           = (Some cm, None)
         \<and> Create kubeClient namespace (Some cm) = (Some cm', None)
         \<and> ConfigMap_Name cm' = name
         \<and> SparkConf app = Some conf
         \<and> app' = app\<lparr>SparkConf := Some (conf(
              ''spark.kubernetes.driver.annotations'' \<mapsto>
                (case conf ''spark.kubernetes.driver.annotations'' of
                   None \<Rightarrow> ''apache-spark-on-k8s/spark-config-map'' @ ''='' @ name
                 | Some annotations \<Rightarrow>
                     annotations @ '','' @ ''apache-spark-on-k8s/spark-config-map'' @ ''='' @ name),
              ''spark.kubernetes.executor.annotations'' \<mapsto>
                (case conf ''spark.kubernetes.executor.annotations'' of
                   None \<Rightarrow> ''apache-spark-on-k8s/spark-config-map'' @ ''='' @ name
                 | Some annotations \<Rightarrow>
                     annotations @ '','' @ ''apache-spark-on-k8s/spark-config-map'' @ ''='' @ name))),
              SparkConfigMap := Some name\<rparr>))
   \<and> (CreateHadoopConfigMap fs H kubeClient hadoopConfDir namespace app = Return (None, app'') \<longrightarrow>
      (\<exists>name conf cm cm'.
         buildConfigMapFromConfigDir fs H hadoopConfDir ''hadoop-config-map'' namespace (UID app)
           = (Some cm, None)
         \<and> Create kubeClient namespace (Some cm) = (Some cm', None)
         \<and> ConfigMap_Name cm' = name
         \<and> SparkConf app = Some conf
         \<and> app'' = app\<lparr>SparkConf := Some (conf(
              ''spark.kubernetes.driver.annotations'' \<mapsto>
                (case conf ''spark.kubernetes.driver.annotations'' of
                   None \<Rightarrow> ''apache-spark-on-k8s/hadoop-config-map'' @ ''='' @ name
                 | Some annotations \<Rightarrow>
                     annotations @ '','' @ ''apache-spark-on-k8s/hadoop-config-map'' @ ''='' @ name),
              ''spark.kubernetes.executor.annotations'' \<mapsto>
                (case conf ''spark.kubernetes.executor.annotations'' of
                   None \<Rightarrow> ''apache-spark-on-k8s/hadoop-config-map'' @ ''='' @ name
                 | Some annotations \<Rightarrow>
                     annotations @ '','' @ ''apache-spark-on-k8s/hadoop-config-map'' @ ''='' @ name))),
              HadoopConfigMap := Some name\<rparr>))"
proof (intro conjI impI)
  assume ok: "CreateSparkConfigMap fs H kubeClient sparkConfDir namespace app = Return (None, app')"
  from CreateSparkConfigMap_succeeded [OF ok] obtain name conf
    where created: "createConfigMap fs H kubeClient sparkConfDir namespace SparkConfigMapNamePrefix app
        = Return (name, None)"
      and conf: "SparkConf app = Some conf"
    by blast
  from createConfigMap_created [OF created] obtain cm cm'
    where "buildConfigMapFromConfigDir fs H sparkConfDir SparkConfigMapNamePrefix namespace (UID app)
        = (Some cm, None)"
      and "Create kubeClient namespace (Some cm) = (Some cm', None)"
      and "ConfigMap_Name cm' = name"
    by blast
  moreover from ok have "app' = app\<lparr>SparkConf := Some (conf(
         SparkDriverAnnotationsKey \<mapsto> (case conf SparkDriverAnnotationsKey of
             None \<Rightarrow> SparkConfigMapAnnotation @ ''='' @ name
           | Some annotations \<Rightarrow> annotations @ '','' @ SparkConfigMapAnnotation @ ''='' @ name),
         SparkExecutorAnnotationsKey \<mapsto> (case conf SparkExecutorAnnotationsKey of
             None \<Rightarrow> SparkConfigMapAnnotation @ ''='' @ name
           | Some annotations \<Rightarrow> annotations @ '','' @ SparkConfigMapAnnotation @ ''='' @ name))),
         SparkConfigMap := Some name\<rparr>"
    unfolding CreateSparkConfigMap_success [OF created conf] by simp
  ultimately show "\<exists>name conf cm cm'.
         buildConfigMapFromConfigDir fs H sparkConfDir ''spark-config-map'' namespace (UID app)
           = (Some cm, None)
         \<and> Create kubeClient namespace (Some cm) = (Some cm', None)
         \<and> ConfigMap_Name cm' = name
         \<and> SparkConf app = Some conf
         \<and> app' = app\<lparr>SparkConf := Some (conf(
              ''spark.kubernetes.driver.annotations'' \<mapsto>
                (case conf ''spark.kubernetes.driver.annotations'' of
                   None \<Rightarrow> ''apache-spark-on-k8s/spark-config-map'' @ ''='' @ name
                 | Some annotations \<Rightarrow>
                     annotations @ '','' @ ''apache-spark-on-k8s/spark-config-map'' @ ''='' @ name),
              ''spark.kubernetes.executor.annotations'' \<mapsto>
                (case conf ''spark.kubernetes.executor.annotations'' of
                   None \<Rightarrow> ''apache-spark-on-k8s/spark-config-map'' @ ''='' @ name
                 | Some annotations \<Rightarrow>
                     annotations @ '','' @ ''apache-spark-on-k8s/spark-config-map'' @ ''='' @ name))),
              SparkConfigMap := Some name\<rparr>"
    using conf
    unfolding SparkConfigMapNamePrefix_def SparkDriverAnnotationsKey_def SparkExecutorAnnotationsKey_def
      SparkConfigMapAnnotation_def LabelAnnotationPrefix_def append.simps
    by blast
next
  assume ok: "CreateHadoopConfigMap fs H kubeClient hadoopConfDir namespace app = Return (None, app'')"
  from CreateHadoopConfigMap_succeeded [OF ok] obtain name conf
    where created: "createConfigMap fs H kubeClient hadoopConfDir namespace HadoopConfigMapNamePrefix app
        = Return (name, None)"
      and conf: "SparkConf app = Some conf"
    by blast
  from createConfigMap_created [OF created] obtain cm cm'
    where "buildConfigMapFromConfigDir fs H hadoopConfDir HadoopConfigMapNamePrefix namespace (UID app)
        = (Some cm, None)"
      and "Create kubeClient namespace (Some cm) = (Some cm', None)"
      and "ConfigMap_Name cm' = name"
    by blast
  moreover from ok have "app'' = app\<lparr>SparkConf := Some (conf(
         SparkDriverAnnotationsKey \<mapsto> (case conf SparkDriverAnnotationsKey of
             None \<Rightarrow> HadoopConfigMapAnnotation @ ''='' @ name
           | Some annotations \<Rightarrow> annotations @ '','' @ HadoopConfigMapAnnotation @ ''='' @ name),
         SparkExecutorAnnotationsKey \<mapsto> (case conf SparkExecutorAnnotationsKey of
             None \<Rightarrow> HadoopConfigMapAnnotation @ ''='' @ name
           | Some annotations \<Rightarrow> annotations @ '','' @ HadoopConfigMapAnnotation @ ''='' @ name))),
         HadoopConfigMap := Some name\<rparr>"
    unfolding CreateHadoopConfigMap_success [OF created conf] by simp
  ultimately show "\<exists>name conf cm cm'.
         buildConfigMapFromConfigDir fs H hadoopConfDir ''hadoop-config-map'' namespace (UID app)
           = (Some cm, None)
         \<and> Create kubeClient namespace (Some cm) = (Some cm', None)
         \<and> ConfigMap_Name cm' = name
         \<and> SparkConf app = Some conf
         \<and> app'' = app\<lparr>SparkConf := Some (conf(
              ''spark.kubernetes.driver.annotations'' \<mapsto>
                (case conf ''spark.kubernetes.driver.annotations'' of
                   None \<Rightarrow> ''apache-spark-on-k8s/hadoop-config-map'' @ ''='' @ name
                 | Some annotations \<Rightarrow>
                     annotations @ '','' @ ''apache-spark-on-k8s/hadoop-config-map'' @ ''='' @ name),
              ''spark.kubernetes.executor.annotations'' \<mapsto>
                (case conf ''spark.kubernetes.executor.annotations'' of
                   None \<Rightarrow> ''apache-spark-on-k8s/hadoop-config-map'' @ ''='' @ name
                 | Some annotations \<Rightarrow>
                     annotations @ '','' @ ''apache-spark-on-k8s/hadoop-config-map'' @ ''='' @ name))),
              HadoopConfigMap := Some name\<rparr>"
    using conf
    unfolding HadoopConfigMapNamePrefix_def SparkDriverAnnotationsKey_def SparkExecutorAnnotationsKey_def
      HadoopConfigMapAnnotation_def LabelAnnotationPrefix_def append.simps
    by blast
qed


text \<open>
  The scenario's directory registered as the Spark bundle, and the empty directory as the
  Hadoop bundle, on the sample application and the accepting object store.
\<close>

lemma sample_build_empty:
  "buildConfigMapFromConfigDir sample_os fnv32 ''/empty'' ''hadoop-config-map'' ''ns1'' ''uid-123''
     = (Some \<lparr>ConfigMap_Name = ''hadoop-config-map-3990353348'', Namespace = ''ns1'',
              Data = Map.empty\<rparr>, None)"
proof -
  have dir: "ReadDir sample_os ''/empty'' = Inr []"
    by (simp add: sample_os_def)
  have reads: "map (\<lambda>f. ReadFile sample_os (filepath_Join sample_os ''/empty'' (FileInfo_Name f)))
      (filter (\<lambda>f. \<not> IsDir f) []) = map Inr []"
    by simp
  show ?thesis
    unfolding build_reads_ok [OF dir reads]
    using sample_hash_empty by (simp add: decimal_sample_empty)
qed

theorem annotations_registered_witness:
  "CreateSparkConfigMap sample_os fnv32 accepting_client ''/etc/spark/conf'' ''ns1'' sample_app
     = Return (None, sample_app\<lparr>SparkConf := Some
         [''spark.kubernetes.driver.annotations''
            \<mapsto> ''apache-spark-on-k8s/spark-config-map=spark-config-map-2052736648'',
          ''spark.kubernetes.executor.annotations''
            \<mapsto> ''apache-spark-on-k8s/spark-config-map=spark-config-map-2052736648''],
         SparkConfigMap := Some ''spark-config-map-2052736648''\<rparr>)
   \<and> CreateHadoopConfigMap sample_os fnv32 accepting_client ''/empty'' ''ns1'' sample_app
     = Return (None, sample_app\<lparr>SparkConf := Some
         [''spark.kubernetes.driver.annotations''
            \<mapsto> ''apache-spark-on-k8s/hadoop-config-map=hadoop-config-map-3990353348'',
          ''spark.kubernetes.executor.annotations''
            \<mapsto> ''apache-spark-on-k8s/hadoop-config-map=hadoop-config-map-3990353348''],
         HadoopConfigMap := Some ''hadoop-config-map-3990353348''\<rparr>)
   \<and> (\<exists>name. ConfigMap_Name sample_bundle = name
         \<and> SparkConfigMap (sample_app\<lparr>SparkConf := Some
              [''spark.kubernetes.driver.annotations''
                 \<mapsto> ''apache-spark-on-k8s/spark-config-map'' @ ''='' @ name,
               ''spark.kubernetes.executor.annotations''
                 \<mapsto> ''apache-spark-on-k8s/spark-config-map'' @ ''='' @ name],
              SparkConfigMap := Some name\<rparr>) = Some name)"
proof -
  have conf: "SparkConf sample_app = Some Map.empty" and uid: "UID sample_app = ''uid-123''"
    by (simp_all add: sample_app_def)
  have created: "createConfigMap sample_os fnv32 accepting_client ''/etc/spark/conf'' ''ns1''
      SparkConfigMapNamePrefix sample_app = Return (''spark-config-map-2052736648'', None)"
    using sample_build
    by (simp add: createConfigMap_def SparkConfigMapNamePrefix_def uid accepting_client_def
        deref_Name_def sample_bundle_def)
  have created': "createConfigMap sample_os fnv32 accepting_client ''/empty'' ''ns1''
      HadoopConfigMapNamePrefix sample_app = Return (''hadoop-config-map-3990353348'', None)"
    using sample_build_empty
    by (simp add: createConfigMap_def HadoopConfigMapNamePrefix_def uid accepting_client_def
        deref_Name_def)
  have spark: "CreateSparkConfigMap sample_os fnv32 accepting_client ''/etc/spark/conf'' ''ns1'' sample_app
     = Return (None, sample_app\<lparr>SparkConf := Some
         [''spark.kubernetes.driver.annotations''
            \<mapsto> ''apache-spark-on-k8s/spark-config-map=spark-config-map-2052736648'',
          ''spark.kubernetes.executor.annotations''
            \<mapsto> ''apache-spark-on-k8s/spark-config-map=spark-config-map-2052736648''],
         SparkConfigMap := Some ''spark-config-map-2052736648''\<rparr>)"
    unfolding CreateSparkConfigMap_success [OF created conf]
    by (simp add: SparkDriverAnnotationsKey_def SparkExecutorAnnotationsKey_def
        SparkConfigMapAnnotation_def LabelAnnotationPrefix_def del: fun_upd_apply)
  have hadoop: "CreateHadoopConfigMap sample_os fnv32 accepting_client ''/empty'' ''ns1'' sample_app
     = Return (None, sample_app\<lparr>SparkConf := Some
         [''spark.kubernetes.driver.annotations''
            \<mapsto> ''apache-spark-on-k8s/hadoop-config-map=hadoop-config-map-3990353348'',
          ''spark.kubernetes.executor.annotations''
            \<mapsto> ''apache-spark-on-k8s/hadoop-config-map=hadoop-config-map-3990353348''],
         HadoopConfigMap := Some ''hadoop-config-map-3990353348''\<rparr>)"
    unfolding CreateHadoopConfigMap_success [OF created' conf]
    by (simp add: SparkDriverAnnotationsKey_def SparkExecutorAnnotationsKey_def
        HadoopConfigMapAnnotation_def LabelAnnotationPrefix_def del: fun_upd_apply)
  from annotations_registered [of sample_os fnv32 accepting_client "''/etc/spark/conf''" "''ns1''"
      sample_app _ "''/empty''"] spark
  obtain name conf' cm cm' where
    "buildConfigMapFromConfigDir sample_os fnv32 ''/etc/spark/conf'' ''spark-config-map'' ''ns1''
       (UID sample_app) = (Some cm, None)"
    "Create accepting_client ''ns1'' (Some cm) = (Some cm', None)"
    "ConfigMap_Name cm' = name"
    "SparkConf sample_app = Some conf'"
    by blast
  with sample_build uid have "ConfigMap_Name sample_bundle = name"
    by (simp add: accepting_client_def)
  then have registered: "\<exists>name. ConfigMap_Name sample_bundle = name
         \<and> SparkConfigMap (sample_app\<lparr>SparkConf := Some
              [''spark.kubernetes.driver.annotations''
                 \<mapsto> ''apache-spark-on-k8s/spark-config-map'' @ ''='' @ name,
               ''spark.kubernetes.executor.annotations''
                 \<mapsto> ''apache-spark-on-k8s/spark-config-map'' @ ''='' @ name],
              SparkConfigMap := Some name\<rparr>) = Some name"
    by (simp del: fun_upd_apply)
  from spark hadoop registered show ?thesis by blast
qed

end
